theory Spec2Isabelle
  imports Main "HOL-Library.AList" "HOL-Library.Sublist" "HOL-Library.Multiset"
begin

section \<open>Python values used by the migration code\<close>

text \<open>
  The class \<open>ConfluencToSharePoint\<close> of \<open>confluenc_to_sharepoint.py\<close> works on
  BeautifulSoup trees, Python strings and dictionaries. Strings are \<open>string\<close>;
  a dictionary whose insertion order is visible (the attributes of a tag) is an association
  list; exceptions are values of \<open>exn\<close>.
\<close>

datatype exn = KeyError string | AttributeError | TypeError | IndexError | NameError
  | RuntimeError | OSError | StoreError

text \<open>
  A character is one of the code points 0 to 255. \<open>str.isspace\<close> there: tab, LF, VT, FF,
  CR, FS, GS, RS, US, space, NEL (U+0085) and the no-break space (U+00A0).
\<close>

definition isspace :: "char \<Rightarrow> bool" where
  "isspace c = (of_char c \<in> {9, 10, 11, 12, 13, 28, 29, 30, 31, 32, 133, 160 :: nat})"

definition rstrip :: "string \<Rightarrow> string" where
  "rstrip s = rev (dropWhile isspace (rev s))"

definition strip :: "string \<Rightarrow> string" where
  "strip s = dropWhile isspace (rstrip s)"

text \<open>\<open>s.replace(c, "")\<close> for a one-character \<open>c\<close>.\<close>

definition replace_char_empty :: "char \<Rightarrow> string \<Rightarrow> string" where
  "replace_char_empty c s = filter (\<lambda>x. x \<noteq> c) s"

text \<open>
  \<open>str.split()\<close> (runs of whitespace separate the words) and \<open>' '.join(...)\<close>.
\<close>

fun split_acc :: "string \<Rightarrow> string \<Rightarrow> string list" where
  "split_acc [] cur = (if cur = [] then [] else [cur])"
| "split_acc (c # cs) cur =
     (if isspace c then (if cur = [] then split_acc cs [] else cur # split_acc cs [])
      else split_acc cs (cur @ [c]))"

definition py_split :: "string \<Rightarrow> string list" where
  "py_split s = split_acc s []"

fun join_space :: "string list \<Rightarrow> string" where
  "join_space [] = []"
| "join_space [x] = x"
| "join_space (x # y # ys) = x @ '' '' @ join_space (y # ys)"

section \<open>BeautifulSoup trees\<close>

text \<open>
  A parsed document is a tree of \<open>NavigableString\<close> and \<open>Tag\<close> objects. A tag has a
  name, its attribute dictionary \<open>attrs\<close> and its \<open>contents\<close>. A \<open>BeautifulSoup\<close>
  object is itself a tag, named \<open>[document]\<close>. Attribute values are strings.

  The code mutates tags in place while it holds lists of them (the results of
  \<open>find_all\<close>). The tree is the store and a tag object is addressed by its path, the
  child indices from the root: a list of tags is a list of paths into one tree.
\<close>

type_synonym attrs = "(string \<times> string) list"

datatype node = NavigableString string | Tag string attrs "node list"

type_synonym path = "nat list"

fun get_at :: "node \<Rightarrow> path \<Rightarrow> node option" where
  "get_at t [] = Some t"
| "get_at (NavigableString s) (i # p) = None"
| "get_at (Tag n a cs) (i # p) = (if i < length cs then get_at (cs ! i) p else None)"

fun update_at :: "path \<Rightarrow> (node \<Rightarrow> node) \<Rightarrow> node \<Rightarrow> node" where
  "update_at [] f t = f t"
| "update_at (i # p) f (NavigableString s) = NavigableString s"
| "update_at (i # p) f (Tag n a cs) =
     (if i < length cs then Tag n a (cs[i := update_at p f (cs ! i)]) else Tag n a cs)"

text \<open>The name and attributes of the tag at a path (\<open>None\<close>: no tag there).\<close>

definition tag_at :: "node \<Rightarrow> path \<Rightarrow> (string \<times> attrs) option" where
  "tag_at t p = (case get_at t p of Some (Tag n a cs) \<Rightarrow> Some (n, a) | _ \<Rightarrow> None)"

text \<open>\<open>tag[key] = value\<close>: an existing key keeps its place, a new one is appended.\<close>

fun set_item :: "string \<Rightarrow> string \<Rightarrow> node \<Rightarrow> node" where
  "set_item k v (Tag n a cs) = Tag n (AList.update k v a) cs"
| "set_item k v (NavigableString s) = NavigableString s"

text \<open>All nodes of a tree with their paths, in document order (the node itself first).\<close>

fun nodes :: "node \<Rightarrow> (path \<times> node) list"
  and nodes_list :: "nat \<Rightarrow> node list \<Rightarrow> (path \<times> node) list" where
  "nodes (NavigableString s) = [([], NavigableString s)]"
| "nodes (Tag n a cs) = ([], Tag n a cs) # nodes_list 0 cs"
| "nodes_list i [] = []"
| "nodes_list i (c # cs) = map (\<lambda>(p, x). (i # p, x)) (nodes c) @ nodes_list (Suc i) cs"

text \<open>\<open>tag.descendants\<close>: every node below the tag, the tag itself excluded.\<close>

definition descendants :: "node \<Rightarrow> (path \<times> node) list" where
  "descendants t = tl (nodes t)"

text \<open>
  \<open>tag.find_all(...)\<close>: the descendants that are tags and match, in document order.
  The criterion is a predicate on name and attributes.
\<close>

definition find_all :: "(string \<Rightarrow> attrs \<Rightarrow> bool) \<Rightarrow> node \<Rightarrow> path list" where
  "find_all m t =
     map fst (filter (\<lambda>(p, x). case x of Tag n a cs \<Rightarrow> m n a | NavigableString s \<Rightarrow> False)
       (descendants t))"

text \<open>\<open>tag.find(...)\<close>: the first match, or \<open>None\<close>.\<close>

definition find :: "(string \<Rightarrow> attrs \<Rightarrow> bool) \<Rightarrow> node \<Rightarrow> path option" where
  "find m t = (case find_all m t of [] \<Rightarrow> None | p # ps \<Rightarrow> Some p)"

text \<open>
  \<open>tag.text\<close>: the strings below the tag, concatenated in document order. The strings of
  a tree here are text; comments and the contents of \<open>script\<close> and \<open>style\<close> elements,
  which \<open>text\<close> leaves out, are not part of it.
\<close>

fun text_of :: "node \<Rightarrow> string" and text_list :: "node list \<Rightarrow> string" where
  "text_of (NavigableString s) = s"
| "text_of (Tag n a cs) = text_list cs"
| "text_list [] = []"
| "text_list (c # cs) = text_of c @ text_list cs"

text \<open>
  \<open>tag.select(...)\<close> with a CSS selector. The selectors of the code are chains of
  compound selectors joined by the descendant combinator; a compound selector is a
  criterion on name and attributes: a type (\<open>td\<close>), a class (\<open>.author\<close>), an identifier
  (\<open>#main-content\<close>), or a type with a class (\<open>div.pageSection\<close>). The value of \<open>class\<close>
  is a list of names separated by whitespace.
\<close>

definition type_sel :: "string \<Rightarrow> string \<Rightarrow> attrs \<Rightarrow> bool" where
  "type_sel t n a = (n = t)"

definition class_sel :: "string \<Rightarrow> string \<Rightarrow> attrs \<Rightarrow> bool" where
  "class_sel c n a = (case map_of a ''class'' of None \<Rightarrow> False | Some v \<Rightarrow> c \<in> set (py_split v))"

definition id_sel :: "string \<Rightarrow> string \<Rightarrow> attrs \<Rightarrow> bool" where
  "id_sel i n a = (map_of a ''id'' = Some i)"

definition type_class_sel :: "string \<Rightarrow> string \<Rightarrow> string \<Rightarrow> attrs \<Rightarrow> bool" where
  "type_class_sel t c n a = (type_sel t n a \<and> class_sel c n a)"

text \<open>Whether a node is a tag that meets a criterion.\<close>

definition meets :: "(string \<Rightarrow> attrs \<Rightarrow> bool) \<Rightarrow> node \<Rightarrow> bool" where
  "meets m x = (case x of Tag n a cs \<Rightarrow> m n a | NavigableString s \<Rightarrow> False)"

text \<open>The nodes on the way from the root to the node at a path, the root excluded.\<close>

fun on_path :: "node \<Rightarrow> path \<Rightarrow> node list" where
  "on_path t [] = []"
| "on_path (NavigableString s) (i # p) = []"
| "on_path (Tag n a cs) (i # p) = (if i < length cs then cs ! i # on_path (cs ! i) p else [])"

text \<open>
  The ancestors of an element, outermost first, meet the compound selectors of a chain in
  their order.
\<close>

fun chain_match :: "(string \<Rightarrow> attrs \<Rightarrow> bool) list \<Rightarrow> node list \<Rightarrow> bool" where
  "chain_match [] anc = True"
| "chain_match (m # ms) [] = False"
| "chain_match (m # ms) (x # anc) =
     (if meets m x then chain_match ms anc else chain_match (m # ms) anc)"

text \<open>
  \<open>soup.select(...)\<close> on a document: the elements that meet the last compound selector and
  whose ancestors meet the ones before it, in document order. \<open>select_one\<close>: the first of
  them, or \<open>None\<close>.
\<close>

definition select :: "(string \<Rightarrow> attrs \<Rightarrow> bool) list \<Rightarrow> node \<Rightarrow> path list" where
  "select ms t =
     (if ms = [] then []
      else filter (\<lambda>p. chain_match (butlast ms) (butlast (on_path t p))) (find_all (last ms) t))"

definition select_one :: "(string \<Rightarrow> attrs \<Rightarrow> bool) list \<Rightarrow> node \<Rightarrow> path option" where
  "select_one ms t = (case select ms t of [] \<Rightarrow> None | p # ps \<Rightarrow> Some p)"

section \<open>The importer object\<close>

text \<open>
  The attributes of \<open>self\<close> that the modelled methods read: \<open>ctx._base_url\<close>,
  \<open>assets_folder\<close>, \<open>windows_path\<close> and the identifiers \<open>site.id\<close>, \<open>web.id\<close>,
  \<open>ll_list.id\<close>. Console output (\<open>print_message\<close>, \<open>print_error\<close>) is not modelled.
\<close>

record importer =
  base_url :: string
  assets_folder :: string
  windows_path :: bool
  site_id :: string
  web_id :: string
  list_id :: string

section \<open>fixAttachmentsPath\<close>

text \<open>
  \<open>main_path = f"{self.ctx._base_url}/{self.assets_folder}"\<close>
\<close>

definition main_path :: "importer \<Rightarrow> string" where
  "main_path self = base_url self @ ''/'' @ assets_folder self"

text \<open>
  The loop over \<open>attachments\<close>. An \<open>a\<close> gets \<open>href\<close> prefixed; an \<open>img\<close> gets
  \<open>src\<close> and then \<open>href\<close> set to the prefixed \<open>src\<close> (a chained assignment:
  the right-hand side is evaluated once). A missing key raises \<open>KeyError\<close>, which the
  handler of the method turns into the result \<open>False\<close>; the tags rewritten before stay
  rewritten. The result is the returned flag and the tree after the call.
\<close>

fun fixAttachmentsPath :: "importer \<Rightarrow> path list \<Rightarrow> node \<Rightarrow> bool \<times> node" where
  "fixAttachmentsPath self [] t = (True, t)"
| "fixAttachmentsPath self (p # ps) t =
     (case get_at t p of
        Some (Tag n a cs) \<Rightarrow>
          if n = ''a'' then
            (case map_of a ''href'' of
               None \<Rightarrow> (False, t)
             | Some h \<Rightarrow>
                 fixAttachmentsPath self ps
                   (update_at p (set_item ''href'' (main_path self @ ''/'' @ h)) t))
          else if n = ''img'' then
            (case map_of a ''src'' of
               None \<Rightarrow> (False, t)
             | Some s \<Rightarrow>
                 fixAttachmentsPath self ps
                   (update_at p
                      (\<lambda>x. set_item ''href'' (main_path self @ ''/'' @ s)
                             (set_item ''src'' (main_path self @ ''/'' @ s) x)) t))
          else fixAttachmentsPath self ps t
      | _ \<Rightarrow> (False, t))"

text \<open>
  The tags the driver passes to it: \<open>main_content.find_all(attrs={"data-linked-resource-type":
  "attachment"})\<close>.
\<close>

definition attachment_match :: "string \<Rightarrow> attrs \<Rightarrow> bool" where
  "attachment_match n a = (map_of a ''data-linked-resource-type'' = Some ''attachment'')"

section \<open>fixAnchors\<close>

text \<open>
  The driver passes \<open>main_content.find_all("a", href=True)\<close>: the \<open>a\<close> tags that carry an
  \<open>href\<close>.
\<close>

definition a_href_match :: "string \<Rightarrow> attrs \<Rightarrow> bool" where
  "a_href_match n a = (n = ''a'' \<and> map_of a ''href'' \<noteq> None)"

text \<open>
  \<open>main_content.find("h3", {"id": v})\<close>: an \<open>h3\<close> whose \<open>id\<close> equals \<open>v\<close>. The
  library compares an absent attribute (\<open>None\<close>) with the criterion by \<open>not v\<close>, so a tag
  without \<open>id\<close> matches the empty criterion.
\<close>

definition h3_id_match :: "string \<Rightarrow> string \<Rightarrow> attrs \<Rightarrow> bool" where
  "h3_id_match v n a =
     (n = ''h3'' \<and> (case map_of a ''id'' of None \<Rightarrow> v = [] | Some i \<Rightarrow> i = v))"

text \<open>
  What the loop does to the tag it found: \<open>anchor.name = "a"\<close>, a new \<open>h3\<close> whose string
  is \<open>anchor.text.strip()\<close>, \<open>anchor.string = ""\<close> (the contents become one empty
  string) and \<open>anchor.append(h3)\<close>. The attributes stay.
\<close>

fun to_anchor :: "node \<Rightarrow> node" where
  "to_anchor (Tag n a cs) =
     Tag ''a'' a [NavigableString [], Tag ''h3'' [] [NavigableString (strip (text_list cs))]]"
| "to_anchor (NavigableString s) = NavigableString s"

text \<open>The body of the loop for a link with the given \<open>href\<close>, on the current tree.\<close>

definition fix_anchor :: "string \<Rightarrow> node \<Rightarrow> node" where
  "fix_anchor href t =
     (if href \<noteq> [] \<and> hd href = CHR ''#'' then
        (case find (h3_id_match (replace_char_empty CHR ''#'' href)) t of
           None \<Rightarrow> t
         | Some p \<Rightarrow> update_at p to_anchor t)
      else t)"

text \<open>
  The loop. The links are tag objects found in the tree \<open>t0\<close> before the loop; the loop
  changes names and contents of \<open>h3\<close> tags only, so \<open>link["href"]\<close> is read in \<open>t0\<close>.
  An exception is printed and raised again: the result is \<open>Inl\<close>. \<open>Inr t\<close> is the return
  of \<open>True\<close> with the tree \<open>t\<close>.
\<close>

fun fixAnchors_loop :: "node \<Rightarrow> path list \<Rightarrow> node \<Rightarrow> exn + node" where
  "fixAnchors_loop t0 [] t = Inr t"
| "fixAnchors_loop t0 (l # ls) t =
     (case tag_at t0 l of
        None \<Rightarrow> Inl TypeError
      | Some (n, a) \<Rightarrow>
          (case map_of a ''href'' of
             None \<Rightarrow> Inl (KeyError ''href'')
           | Some href \<Rightarrow> fixAnchors_loop t0 ls (fix_anchor href t)))"

definition fixAnchors :: "path list \<Rightarrow> node \<Rightarrow> exn + node" where
  "fixAnchors links main_content = fixAnchors_loop main_content links main_content"

section \<open>logLinks\<close>

text \<open>
  The \<open>for\<close> loop only binds \<open>href\<close> and \<open>link\<close>; the test and the call of
  \<open>logging.info\<close> stand after it, so they see the last link. With no link \<open>href\<close> is
  unbound (\<open>NameError\<close>). The loop returns the last link and its \<open>href\<close>.
\<close>

fun logLinks_loop :: "node \<Rightarrow> path list \<Rightarrow> (path \<times> string) option
    \<Rightarrow> exn + (path \<times> string) option" where
  "logLinks_loop t [] cur = Inr cur"
| "logLinks_loop t (l # ls) cur =
     (case tag_at t l of
        None \<Rightarrow> Inl TypeError
      | Some (n, a) \<Rightarrow>
          (case map_of a ''href'' of
             None \<Rightarrow> Inl (KeyError ''href'')
           | Some href \<Rightarrow> logLinks_loop t ls (Some (l, href))))"

definition text_at :: "node \<Rightarrow> path \<Rightarrow> string" where
  "text_at t p = (case get_at t p of Some x \<Rightarrow> text_of x | None \<Rightarrow> [])"

text \<open>\<open>f"Link: {href}. Text: {text}. URL: {page_url}  "\<close>\<close>

definition log_line :: "string \<Rightarrow> string \<Rightarrow> string \<Rightarrow> string" where
  "log_line href text page_url =
     ''Link: '' @ href @ ''. Text: '' @ text @ ''. URL: '' @ page_url @ ''  ''"

text \<open>
  The log file \<open>logfile.log\<close> is the list of the messages given to \<open>logging.info\<close>, oldest
  first (the handler appends). Every exception is caught: the result is \<open>False\<close>.
  \<open>matches = ["html"]\<close>.
\<close>

definition logLinks :: "node \<Rightarrow> path list \<Rightarrow> string \<Rightarrow> string list \<Rightarrow> bool \<times> string list" where
  "logLinks t links page_url logfile =
     (case logLinks_loop t links None of
        Inl e \<Rightarrow> (False, logfile)
      | Inr None \<Rightarrow> (False, logfile)
      | Inr (Some (link, href)) \<Rightarrow>
          if sublist ''html'' href
          then (True, logfile @ [log_line href (text_at t link) page_url])
          else (True, logfile))"

section \<open>getSPPageCanvas\<close>

text \<open>
  A canvas is the list of dictionaries the method returns. A dictionary is one of three
  kinds, told apart by \<open>controlType\<close> (3, 4, 0); the entries that are literals of the source
  (positions, sizes, versions, flags, \<open>webPartId\<close>, \<open>rteInstanceId\<close>) are fixed by the kind
  and left out. For \<open>controlType\<close> 3 the fields are \<open>id\<close>, \<open>webPartData.instanceId\<close>,
  \<open>imageSources.imageSource\<close>, \<open>uniqueId\<close> (twice in the dictionary, one value),
  \<open>properties.id\<close>, \<open>siteId\<close>, \<open>webId\<close>, \<open>listId\<close>. \<open>innerHTML\<close> is \<open>str(content)\<close>:
  the block holds the tree that is serialised.
\<close>

datatype block =
    ImageBlock string string string string string string string string
  | RichTextBlock string node
  | SettingsBlock

text \<open>The \<open>id\<close> literal of the rich-text dictionary.\<close>

definition rte_id :: string where
  "rte_id = ''7802ec32-078a-42a7-b455-8eae2538781f''"

text \<open>
  \<open>BeautifulSoup(f"""<div ... contenteditable='' false''><div ... data-instance-id='{guid}'
  title=''></div></div>""", 'html.parser')\<close>: a document holding the wrapper \<open>div\<close>, which
  holds the widget \<open>div\<close>. The parser reads \<open>false''\<close> as one more attribute, without a
  value, and makes a single newline of each run of line break and spaces in the literal.
\<close>

definition placeholder :: "string \<Rightarrow> node" where
  "placeholder guid =
     Tag ''[document]'' []
       [Tag ''div''
          [(''tabindex'', ''-1''), (''data-cke-widget-wrapper'', ''1''), (''data-cke-filter'', ''off''),
           (''class'', ''cke_widget_wrapper cke_widget_block cke_widget_inlineimage cke_widget_wrapper_webPartInRteInlineImage cke_widget_wrapper_webPartInRteClear cke_widget_wrapper_webPartInRteAlignCenter cke_widget_wrapper_webPartInRte''),
           (''data-cke-display-name'', ''div''), (''data-cke-widget-id'', ''5''), (''role'', ''region''),
           (''aria-label'', ''Inline image in RTE. Use Alt + F11 to go to toolbar. Use Alt + P to open the property pane.''),
           (''contenteditable'', []), (''false'' @ [CHR 0x27, CHR 0x27], [])]
          [NavigableString [CHR 0x0A],
           Tag ''div''
             [(''data-webpart-id'', ''image''),
              (''class'', ''webPartInRte webPartInRteAlignCenter webPartInRteClear webPartInRteInlineImage cke_widget_element''),
              (''data-cke-widget-data'', ''%7B%22classes%22%3A%7B%22webPartInRteInlineImage%22%3A1%2C%22webPartInRteClear%22%3A1%2C%22webPartInRteAlignCenter%22%3A1%2C%22webPartInRte%22%3A1%7D%7D''),
              (''data-cke-widget-upcasted'', ''1''), (''data-cke-widget-keep-attr'', ''0''),
              (''data-widget'', ''inlineimage''), (''data-instance-id'', guid), (''title'', [])]
             [],
           NavigableString [CHR 0x0A]],
        NavigableString [CHR 0x0A]]"

text \<open>
  \<open>img.replace_with(soup)\<close> puts the children of the document \<open>soup\<close> where the image
  stood. A path stands for a tag object, and the images still to come must keep theirs: the
  loop below puts the document itself in the place of the image, and \<open>splice\<close> takes every
  such document out again, leaving its children in its place, once the loop has ended. A
  document is a tag named \<open>[document]\<close> without attributes.
\<close>

definition is_document :: "node \<Rightarrow> bool" where
  "is_document x = (case x of Tag n a cs \<Rightarrow> n = ''[document]'' \<and> a = [] | NavigableString s \<Rightarrow> False)"

definition contents :: "node \<Rightarrow> node list" where
  "contents x = (case x of Tag n a cs \<Rightarrow> cs | NavigableString s \<Rightarrow> [])"

fun splice :: "node \<Rightarrow> node" and splice_list :: "node list \<Rightarrow> node list" where
  "splice (NavigableString s) = NavigableString s"
| "splice (Tag n a cs) = Tag n a (splice_list cs)"
| "splice_list [] = []"
| "splice_list (c # cs) =
     (if is_document c then contents c @ splice_list cs else splice c # splice_list cs)"

definition img_match :: "string \<Rightarrow> attrs \<Rightarrow> bool" where
  "img_match n a = (n = ''img'')"

text \<open>
  The loop over \<open>images\<close>, the tags found in \<open>t0\<close> before the loop. \<open>uuid\<close> is the
  sequence of the values \<open>str(uuid.uuid4())\<close> returns and \<open>k\<close> counts the calls made so
  far; an iteration makes three. \<open>img['src']\<close> is read from the tag (in \<open>t0\<close>: the loop
  changes no attribute). \<open>img.replace_with(soup)\<close> puts the placeholder where the image
  stands; an image inside an image replaced before is no longer part of the tree, and
  replacing it there leaves the tree as it is.
\<close>

fun images_loop :: "importer \<Rightarrow> (nat \<Rightarrow> string) \<Rightarrow> node \<Rightarrow> path list \<Rightarrow> path list \<Rightarrow> nat
    \<Rightarrow> node \<Rightarrow> block list \<Rightarrow> exn + (block list \<times> node \<times> nat)" where
  "images_loop self uuid t0 [] replaced k t canvas_dict = Inr (canvas_dict, t, k)"
| "images_loop self uuid t0 (img # images) replaced k t canvas_dict =
     (let guid = uuid k; guid2 = uuid (k + 1); guid3 = uuid (k + 2) in
      case tag_at t0 img of
        None \<Rightarrow> Inl TypeError
      | Some (n, a) \<Rightarrow>
          (case map_of a ''src'' of
             None \<Rightarrow> Inl (KeyError ''src'')
           | Some img_src \<Rightarrow>
               images_loop self uuid t0 images (img # replaced) (k + 3)
                 (if list_ex (\<lambda>q. strict_prefix q img) replaced then t
                  else update_at img (\<lambda>x. placeholder guid) t)
                 (canvas_dict @
                    [ImageBlock guid guid img_src guid2 guid3 (site_id self) (web_id self)
                       (''{'' @ list_id self @ ''}'')])))"

text \<open>
  The method: the image dictionaries, then the rich-text dictionary with the tree as it
  is after the loop (the placeholders spliced in), then the settings dictionary. An exception is printed and raised
  again (\<open>Inl\<close>). The result carries the tree and the count of \<open>uuid4\<close> calls as well.
\<close>

definition getSPPageCanvas :: "importer \<Rightarrow> (nat \<Rightarrow> string) \<Rightarrow> nat \<Rightarrow> node
    \<Rightarrow> exn + (block list \<times> node \<times> nat)" where
  "getSPPageCanvas self uuid k content =
     (case images_loop self uuid content (find_all img_match content) [] k content [] of
        Inl e \<Rightarrow> Inl e
      | Inr (canvas_dict, t, k') \<Rightarrow>
          Inr (canvas_dict @ [RichTextBlock rte_id (splice t), SettingsBlock], splice t, k'))"

section \<open>The file system and the Target Content Store\<close>

text \<open>\<open>os.path\<close> for POSIX paths: \<open>basename\<close>, \<open>dirname\<close>, \<open>join\<close> of two parts.\<close>

definition basename :: "string \<Rightarrow> string" where
  "basename p = rev (takeWhile (\<lambda>c. c \<noteq> CHR ''/'') (rev p))"

definition dirname :: "string \<Rightarrow> string" where
  "dirname p =
     (let head = rev (dropWhile (\<lambda>c. c \<noteq> CHR ''/'') (rev p)) in
      if head \<noteq> [] \<and> \<not> list_all (\<lambda>c. c = CHR ''/'') head
      then rev (dropWhile (\<lambda>c. c = CHR ''/'') (rev head)) else head)"

definition path_join :: "string \<Rightarrow> string \<Rightarrow> string" where
  "path_join a b =
     (if b \<noteq> [] \<and> hd b = CHR ''/'' then b
      else if a = [] \<or> last a = CHR ''/'' then a @ b
      else a @ ''/'' @ b)"

text \<open>
  The local file system maps a path to a directory or to a file. A file that exists can be
  opened and read; its content is the document \<open>BeautifulSoup(fp, 'html.parser')\<close> makes
  of it, a tag named \<open>[document]\<close>.
\<close>

datatype fobj = Directory | File node

type_synonym filesystem = "string \<Rightarrow> fobj option"

definition isfile :: "filesystem \<Rightarrow> string \<Rightarrow> bool" where
  "isfile fs p = (case fs p of Some (File h) \<Rightarrow> True | _ \<Rightarrow> False)"

text \<open>
  The Target Content Store is the remote site behind the \<open>office365\<close> client: an external
  collaborator. Its state here: the files of each folder as (name, serverRelativeUrl); the
  site users found for a title, as (Email, Title); the items the list query returns after a
  page of a given name was published, as (id, serverRelativeUrl of its file). Each
  \<open>execute_query\<close> (or \<open>execute_batch\<close>) is a round trip that may raise: \<open>faults\<close> says for
  the round trips to come, in order, whether they raise (none once the list is used up).
  \<open>calls\<close> records the round trips made.
\<close>

datatype store_call =
    SiteUsers string
  | EnsureFolder string
  | FolderFiles string
  | FilterFiles string string
  | UploadFile string string
  | PublishNew string string string
  | GetItems
  | GetFile nat
  | GetItem nat
  | UpdateItem nat "(string \<times> string) list"
  | Checkout
  | PublishCanvas string "block list"

record store =
  folders :: "string \<Rightarrow> (string \<times> string) list option"
  site_users :: "string \<Rightarrow> (string \<times> string) list"
  list_items :: "string \<Rightarrow> (nat \<times> string) list"
  faults :: "bool list"
  calls :: "store_call list"

definition execute_query :: "store_call \<Rightarrow> store \<Rightarrow> bool \<times> store" where
  "execute_query c s =
     (case faults s of
        [] \<Rightarrow> (True, s\<lparr>calls := calls s @ [c]\<rparr>)
      | b # bs \<Rightarrow> (\<not> b, s\<lparr>faults := bs, calls := calls s @ [c]\<rparr>))"

definition files_of :: "store \<Rightarrow> string \<Rightarrow> (string \<times> string) list" where
  "files_of s folder = (case folders s folder of None \<Rightarrow> [] | Some fs \<Rightarrow> fs)"

text \<open>\<open>ensure_folder_path\<close> creates the folder when it is missing.\<close>

definition ensure_folder :: "string \<Rightarrow> store \<Rightarrow> store" where
  "ensure_folder folder s =
     (case folders s folder of
        None \<Rightarrow> s\<lparr>folders := (folders s)(folder := Some [])\<rparr>
      | Some fs \<Rightarrow> s)"

text \<open>
  \<open>upload_file\<close> stores the file under its name, in place of a file of that name; the
  descriptor it returns has that name and the URL of the file in the folder.
\<close>

definition upload :: "string \<Rightarrow> string \<Rightarrow> store \<Rightarrow> store" where
  "upload folder filename s =
     s\<lparr>folders := (folders s)(folder :=
          Some (filter (\<lambda>d. fst d \<noteq> filename) (files_of s folder)
                @ [(filename, folder @ ''/'' @ filename)]))\<rparr>"

section \<open>getSiteUser\<close>

text \<open>
  An empty name gives \<open>None\<close> without a round trip; an exception of the round trip is caught
  and gives \<open>None\<close>; otherwise the first user found, or \<open>None\<close>.
\<close>

definition getSiteUser :: "string \<Rightarrow> store \<Rightarrow> (string \<times> string) option \<times> store" where
  "getSiteUser full_name s =
     (let full_name = strip full_name in
      if full_name = [] then (None, s)
      else
        (case execute_query (SiteUsers full_name) s of
           (False, s') \<Rightarrow> (None, s')
         | (True, s') \<Rightarrow>
             (case site_users s' full_name of [] \<Rightarrow> (None, s') | u # us \<Rightarrow> (Some u, s'))))"

section \<open>remove_elements\<close>

text \<open>
  \<open>elements_to_remove\<close> is a list of class names. For each of them
  \<open>page.select(f".{element_to_remove}")\<close> gives the tags of that class and every one is
  decomposed: taken out of the tree with all below it (a selected tag inside one decomposed
  before is out already). The tree after the inner loop for the class \<open>c\<close>:
\<close>

fun decompose_class :: "string \<Rightarrow> node \<Rightarrow> node"
  and decompose_list :: "string \<Rightarrow> node list \<Rightarrow> node list" where
  "decompose_class c (NavigableString s) = NavigableString s"
| "decompose_class c (Tag n a cs) = Tag n a (decompose_list c cs)"
| "decompose_list c [] = []"
| "decompose_list c (x # xs) =
     (if meets (class_sel c) x then decompose_list c xs
      else decompose_class c x # decompose_list c xs)"

text \<open>
  The method modifies the page in place; nothing in the model of \<open>select\<close> and
  \<open>decompose\<close> raises, so its handler is not reached.
\<close>

fun remove_elements :: "node \<Rightarrow> string list \<Rightarrow> node" where
  "remove_elements page [] = page"
| "remove_elements page (element_to_remove # rest) =
     remove_elements (decompose_class element_to_remove page) rest"

text \<open>
  A tag object the caller found before keeps its identity while the page changes. Where the
  object at a path stands after the tags of class \<open>c\<close> were decomposed: the siblings
  decomposed before it on each level no longer count; \<open>None\<close> when the object itself or a
  tag around it was decomposed.
\<close>

fun held :: "string \<Rightarrow> node \<Rightarrow> path \<Rightarrow> path option" where
  "held c t [] = Some []"
| "held c (NavigableString s) (i # p) = None"
| "held c (Tag n a cs) (i # p) =
     (if i < length cs \<and> \<not> meets (class_sel c) (cs ! i)
      then map_option (\<lambda>q. length (filter (\<lambda>x. \<not> meets (class_sel c) x) (take i cs)) # q)
             (held c (cs ! i) p)
      else None)"

fun held_after :: "string list \<Rightarrow> node \<Rightarrow> path \<Rightarrow> path option" where
  "held_after [] page p = Some p"
| "held_after (element_to_remove # rest) page p =
     (case held element_to_remove page p of
        None \<Rightarrow> None
      | Some q \<Rightarrow> held_after rest (decompose_class element_to_remove page) q)"

section \<open>add_attachments\<close>

text \<open>The value of \<open>result[path]\<close>: \<open>result\<close>, \<open>name\<close>, \<open>serverRelativeUrl\<close>.\<close>

record upload_status =
  st_result :: string
  st_name :: "string option"
  st_url :: "string option"

definition not_found_status :: upload_status where
  "not_found_status =
     \<lparr>st_result = ''Not uploaded: File not found. Check the file name and try again'',
      st_name = None, st_url = None\<rparr>"

definition exists_status :: "string \<times> string \<Rightarrow> upload_status" where
  "exists_status d =
     \<lparr>st_result = ''Not uploaded: File exists and overwrite is set to false'',
      st_name = Some (fst d), st_url = Some (snd d)\<rparr>"

definition completed_status :: "string \<times> string \<Rightarrow> upload_status" where
  "completed_status d =
     \<lparr>st_result = ''File upload completed'', st_name = Some (fst d), st_url = Some (snd d)\<rparr>"

definition failed_status :: upload_status where
  "failed_status = \<lparr>st_result = ''Upload failed due to an error.'', st_name = None, st_url = None\<rparr>"

text \<open>
  One iteration of the loop over \<open>files_to_add\<close>, for \<open>path\<close>. \<open>None\<close>: an exception
  left the loop (a round trip raised, or \<open>open\<close> raised on a directory).
\<close>

definition add_attachment :: "filesystem \<Rightarrow> string \<Rightarrow> bool \<Rightarrow> string
    \<Rightarrow> (string \<Rightarrow> upload_status option) \<Rightarrow> store
    \<Rightarrow> (string \<Rightarrow> upload_status option) option \<times> store" where
  "add_attachment fs target_folder overwrite path result s =
     (case fs path of
        None \<Rightarrow> (Some (result(path := Some not_found_status)), s)
      | Some f \<Rightarrow>
          (let filename = basename path in
           case execute_query (FilterFiles target_folder filename) s of
             (False, s1) \<Rightarrow> (None, s1)
           | (True, s1) \<Rightarrow>
               (let file = filter (\<lambda>d. fst d = filename) (files_of s1 target_folder) in
                if file \<noteq> [] \<and> \<not> overwrite
                then (Some (result(path := Some (exists_status (hd file)))), s1)
                else
                  (case f of
                     Directory \<Rightarrow> (None, s1)
                   | File h \<Rightarrow>
                       (case execute_query (UploadFile target_folder filename) s1 of
                          (False, s2) \<Rightarrow> (None, s2)
                        | (True, s2) \<Rightarrow>
                            (Some (result(path := Some (completed_status
                                     (filename, target_folder @ ''/'' @ filename)))),
                             upload target_folder filename s2))))))"

fun add_attachments_loop :: "filesystem \<Rightarrow> string \<Rightarrow> bool \<Rightarrow> string list
    \<Rightarrow> (string \<Rightarrow> upload_status option) \<Rightarrow> store
    \<Rightarrow> (string \<Rightarrow> upload_status option) option \<times> store" where
  "add_attachments_loop fs target_folder overwrite [] result s = (Some result, s)"
| "add_attachments_loop fs target_folder overwrite (path # files) result s =
     (case add_attachment fs target_folder overwrite path result s of
        (None, s') \<Rightarrow> (None, s')
      | (Some result', s') \<Rightarrow> add_attachments_loop fs target_folder overwrite files result' s')"

text \<open>
  The body of the \<open>try\<close>: the folder is ensured, its files are fetched, then the loop.
  \<open>page_folder or ""\<close>.
\<close>

definition target_of :: "importer \<Rightarrow> string option \<Rightarrow> string" where
  "target_of self page_folder =
     assets_folder self @ ''/'' @ (case page_folder of None \<Rightarrow> [] | Some f \<Rightarrow> f)"

definition add_attachments_try :: "importer \<Rightarrow> filesystem \<Rightarrow> string list \<Rightarrow> string option
    \<Rightarrow> bool \<Rightarrow> store \<Rightarrow> (string \<Rightarrow> upload_status option) option \<times> store" where
  "add_attachments_try self fs files_to_add page_folder overwrite s =
     (let target_folder = target_of self page_folder in
      case execute_query (EnsureFolder target_folder) s of
        (False, s1) \<Rightarrow> (None, s1)
      | (True, s1) \<Rightarrow>
          (case execute_query (FolderFiles target_folder) (ensure_folder target_folder s1) of
             (False, s2) \<Rightarrow> (None, s2)
           | (True, s2) \<Rightarrow>
               add_attachments_loop fs target_folder overwrite files_to_add (\<lambda>p. None) s2))"

text \<open>
  The method: the handler returns \<open>Upload failed due to an error.\<close> for every file.
\<close>

definition add_attachments :: "importer \<Rightarrow> filesystem \<Rightarrow> string list \<Rightarrow> string option
    \<Rightarrow> bool \<Rightarrow> store \<Rightarrow> (string \<Rightarrow> upload_status option) \<times> store" where
  "add_attachments self fs files_to_add page_folder overwrite s =
     (case add_attachments_try self fs files_to_add page_folder overwrite s of
        (Some result, s') \<Rightarrow> (result, s')
      | (None, s') \<Rightarrow>
          ((\<lambda>p. if p \<in> set files_to_add then Some failed_status else None), s'))"

section \<open>uploadPageAttachment\<close>

text \<open>
  The loop collects the attachment files that exist and the folder name of the first of
  them. An attachment is given by its attribute dictionary, \<open>None\<close> for a tag that was
  decomposed (it has lost its dictionary, and \<open>attachment.attrs\<close> is \<open>None\<close>).
  \<open>attachment.attrs["href"]\<close> raises \<open>TypeError\<close> on \<open>None\<close> and \<open>KeyError\<close> on a missing
  key (the result \<open>None\<close> here), which the handler turns into the result \<open>False\<close>.
\<close>

fun collect_attachments :: "importer \<Rightarrow> filesystem \<Rightarrow> string \<Rightarrow> attrs option list \<Rightarrow> string list
    \<Rightarrow> string \<Rightarrow> (string list \<times> string) option" where
  "collect_attachments self fs path [] attachments_arr page_name =
     Some (attachments_arr, page_name)"
| "collect_attachments self fs path (attachment # rest) attachments_arr page_name =
     (case Option.bind attachment (\<lambda>a. map_of a ''href'') of
        None \<Rightarrow> None
      | Some attachment_file \<Rightarrow>
          (let file_name = path_join path attachment_file in
           if isfile fs file_name
           then collect_attachments self fs path rest
                  (attachments_arr @
                     [if windows_path self
                      then map (\<lambda>c. if c = CHR ''/'' then CHR 0x5C else c) file_name
                      else file_name])
                  (if page_name \<noteq> [] then page_name else dirname attachment_file)
           else collect_attachments self fs path rest attachments_arr page_name))"

definition uploadPageAttachment :: "importer \<Rightarrow> filesystem \<Rightarrow> string \<Rightarrow> attrs option list \<Rightarrow> store
    \<Rightarrow> bool \<times> store" where
  "uploadPageAttachment self fs path atts s =
     (case collect_attachments self fs path atts [] [] of
        None \<Rightarrow> (False, s)
      | Some (attachments_arr, page_name) \<Rightarrow>
          if attachments_arr \<noteq> []
          then (True, snd (add_attachments self fs attachments_arr (Some page_name) False s))
          else (True, s))"

section \<open>add_edit_page\<close>

text \<open>
  \<open>update_item\<close>: the item is fetched, its properties are set and the batch is executed;
  an exception is raised again (\<open>False\<close> here).
\<close>

definition update_item :: "nat \<Rightarrow> (string \<times> string) list \<Rightarrow> store \<Rightarrow> bool \<times> store" where
  "update_item item_id params s =
     (case execute_query (GetItem item_id) s of
        (False, s1) \<Rightarrow> (False, s1)
      | (True, s1) \<Rightarrow> execute_query (UpdateItem item_id params) s1)"

record page_info =
  pg_id :: nat
  pg_name :: string
  pg_url :: string

text \<open>
  The call the driver makes: \<open>page_id\<close> is \<open>None\<close> and \<open>attachments\<close> is empty. The new
  page is saved with the title area and published (first round trip); the newest item of
  the list is queried; if there is one, its file is fetched, the fields are updated when
  \<open>sp_fields\<close> is not empty, and the page is checked out, saved with the canvas and
  published again, and the dictionary with \<open>id\<close>, \<open>name\<close>, \<open>url\<close> is returned. With no item
  the method falls through to \<open>return None\<close>: the canvas was not attached. An exception
  of a round trip is printed and raised again.
\<close>

definition add_edit_page :: "string \<Rightarrow> block list \<Rightarrow> (string \<times> string) option
    \<Rightarrow> (string \<times> string) list \<Rightarrow> store \<Rightarrow> (exn + page_info option) \<times> store" where
  "add_edit_page page_name page_canvas user sp_fields s =
     (let author_email = (case user of None \<Rightarrow> [] | Some u \<Rightarrow> fst u);
          author_title = (case user of None \<Rightarrow> [] | Some u \<Rightarrow> snd u) in
      case execute_query (PublishNew page_name author_email author_title) s of
        (False, s1) \<Rightarrow> (Inl StoreError, s1)
      | (True, s1) \<Rightarrow>
      (case execute_query GetItems s1 of
        (False, s2) \<Rightarrow> (Inl StoreError, s2)
      | (True, s2) \<Rightarrow>
      (case list_items s2 page_name of
        [] \<Rightarrow> (Inr None, s2)
      | data # others \<Rightarrow>
      (case execute_query (GetFile (fst data)) s2 of
        (False, s3) \<Rightarrow> (Inl StoreError, s3)
      | (True, s3) \<Rightarrow>
      (case (if sp_fields \<noteq> [] then update_item (fst data) sp_fields s3 else (True, s3)) of
        (False, s4) \<Rightarrow> (Inl StoreError, s4)
      | (True, s4) \<Rightarrow>
      (case execute_query Checkout s4 of
        (False, s5) \<Rightarrow> (Inl StoreError, s5)
      | (True, s5) \<Rightarrow>
      (case execute_query (PublishCanvas page_name page_canvas) s5 of
        (False, s6) \<Rightarrow> (Inl StoreError, s6)
      | (True, s6) \<Rightarrow>
          (Inr (Some \<lparr>pg_id = fst data, pg_name = page_name, pg_url = snd data\<rparr>), s6))))))))"

section \<open>parse_confluence_HTML\<close>

text \<open>
  What a run works on: the local disk, the Store, the link log and the number of
  \<open>uuid4\<close> calls made so far.
\<close>

record world =
  w_disk :: filesystem
  w_store :: store
  w_log :: "string list"
  w_uuid :: nat

text \<open>An iteration of the loop over the pages ends normally or with an exception.\<close>

datatype outcome = Continue | Raise exn

definition a_match :: "string \<Rightarrow> attrs \<Rightarrow> bool" where
  "a_match n a = (n = ''a'')"

text \<open>
  A tag object the driver found before it calls \<open>remove_elements\<close>, as it is after the
  call, which is made only when the list is not empty: \<open>None\<close> for a decomposed tag.
  \<open>attrs_after\<close> is its attribute dictionary.
\<close>

definition object_after :: "string list \<Rightarrow> node \<Rightarrow> path \<Rightarrow> node option" where
  "object_after elements_to_remove page_soup p =
     (if elements_to_remove \<noteq> []
      then (case held_after elements_to_remove page_soup p of
              None \<Rightarrow> None
            | Some q \<Rightarrow> get_at (remove_elements page_soup elements_to_remove) q)
      else get_at page_soup p)"

definition attrs_after :: "string list \<Rightarrow> node \<Rightarrow> path \<Rightarrow> attrs option" where
  "attrs_after elements_to_remove page_soup p =
     (case object_after elements_to_remove page_soup p of
        Some (Tag n a cs) \<Rightarrow> Some a
      | _ \<Rightarrow> None)"

text \<open>
  The body of \<open>if os.path.isfile(...)\<close> for a page file with the document \<open>page_soup\<close>:
  the \<open>with\<close> block and the \<open>os.rename\<close> after it. \<open>main_content\<close> is \<open>None\<close> when the
  page has no such element, and \<open>main_content.contents\<close> raises \<open>AttributeError\<close> then. An
  empty page takes \<open>continue\<close>, before any Store call and skipping the rename.
  \<open>getSiteUser\<close>, \<open>remove_elements\<close>, \<open>uploadPageAttachment\<close> and \<open>fixAttachmentsPath\<close>
  return whatever happens in them; \<open>fixAnchors\<close>, \<open>getSPPageCanvas\<close> and \<open>add_edit_page\<close>
  raise. When \<open>remove_elements\<close> has decomposed the main content itself, the tag has lost
  its name and its contents: the two \<open>find_all\<close> find nothing and \<open>str(main_content)\<close>
  raises \<open>TypeError\<close>. The result of \<open>add_edit_page\<close> is subscripted (\<open>page["url"]\<close>)
  only when there are links: \<open>TypeError\<close> for \<open>None\<close>. \<open>os.rename\<close> replaces a file of
  the target name and raises when the target is a directory; the file keeps its content.
\<close>

definition migrate_page :: "importer \<Rightarrow> (nat \<Rightarrow> string) \<Rightarrow> string \<Rightarrow> (string \<times> string) list
    \<Rightarrow> string list \<Rightarrow> string \<Rightarrow> string \<Rightarrow> node \<Rightarrow> world \<Rightarrow> outcome \<times> world" where
  "migrate_page self uuid path sp_fields elements_to_remove page_name page_file page_soup w =
     (case select_one [id_sel ''main-content''] page_soup of
        None \<Rightarrow> (Raise AttributeError, w)
      | Some main_content \<Rightarrow>
     (case get_at page_soup main_content of
        Some (Tag n a cs) \<Rightarrow>
          if cs = [] \<or> rstrip (text_list cs) = [] then (Continue, w)
          else
            (let attachments =
                   select [type_class_sel ''div'' ''pageSection'', class_sel ''greybox'',
                           type_sel ''a''] page_soup;
                 page_author_name =
                   (case select_one [class_sel ''author''] page_soup of
                      None \<Rightarrow> []
                    | Some page_author \<Rightarrow> text_at page_soup page_author);
                 us = getSiteUser page_author_name (w_store w);
                 user = fst us;
                 s2 = (if attachments \<noteq> []
                       then snd (uploadPageAttachment self (w_disk w) path
                                   (map (attrs_after elements_to_remove page_soup) attachments)
                                   (snd us))
                       else snd us)
             in
             case object_after elements_to_remove page_soup main_content of
               None \<Rightarrow> (Raise TypeError, w\<lparr>w_store := s2\<rparr>)
             | Some mc \<Rightarrow>
             (let attachments_obj = find_all attachment_match mc;
                  mc1 = (if attachments_obj \<noteq> []
                         then snd (fixAttachmentsPath self attachments_obj mc) else mc);
                  links = find_all a_href_match mc1
              in
              case (if links \<noteq> [] then fixAnchors links mc1 else Inr mc1) of
                Inl e \<Rightarrow> (Raise e, w\<lparr>w_store := s2\<rparr>)
              | Inr mc2 \<Rightarrow>
              (case getSPPageCanvas self uuid (w_uuid w) mc2 of
                Inl e \<Rightarrow> (Raise e, w\<lparr>w_store := s2\<rparr>)
              | Inr (page_canvas, mc3, k) \<Rightarrow>
              (case add_edit_page page_name page_canvas user sp_fields s2 of
                (Inl e, s3) \<Rightarrow> (Raise e, w\<lparr>w_store := s3, w_uuid := k\<rparr>)
              | (Inr page, s3) \<Rightarrow>
              (let links2 = find_all a_href_match mc3 in
               case (if links2 \<noteq> []
                     then (case page of
                             None \<Rightarrow> None
                           | Some pg \<Rightarrow> Some (snd (logLinks mc3 links2 (pg_url pg) (w_log w))))
                     else Some (w_log w)) of
                 None \<Rightarrow> (Raise TypeError, w\<lparr>w_store := s3, w_uuid := k\<rparr>)
               | Some log' \<Rightarrow>
                   (case w_disk w (path @ page_file @ ''_complete'') of
                      Some Directory \<Rightarrow>
                        (Raise OSError, w\<lparr>w_store := s3, w_log := log', w_uuid := k\<rparr>)
                    | _ \<Rightarrow>
                        (Continue,
                         w\<lparr>w_disk := (w_disk w)(path @ page_file := None,
                                 path @ page_file @ ''_complete'' := w_disk w (path @ page_file)),
                           w_store := s3, w_log := log', w_uuid := k\<rparr>)))))))
      | _ \<Rightarrow> (Raise AttributeError, w)))"

text \<open>
  One iteration for the \<open>li\<close> tag \<open>page\<close> of the index: \<open>page.select_one("a")\<close>, its text
  with the whitespace normalised, its \<open>href\<close>; a path that is not a file is passed over.
\<close>

definition process_page :: "importer \<Rightarrow> (nat \<Rightarrow> string) \<Rightarrow> string \<Rightarrow> (string \<times> string) list
    \<Rightarrow> string list \<Rightarrow> node \<Rightarrow> world \<Rightarrow> outcome \<times> world" where
  "process_page self uuid path sp_fields elements_to_remove page w =
     (case find a_match page of
        None \<Rightarrow> (Raise AttributeError, w)
      | Some page_link \<Rightarrow>
          (let page_name = join_space (py_split (text_at page page_link)) in
           case tag_at page page_link of
             None \<Rightarrow> (Raise AttributeError, w)
           | Some (n, a) \<Rightarrow>
               (case map_of a ''href'' of
                  None \<Rightarrow> (Raise (KeyError ''href''), w)
                | Some page_file \<Rightarrow>
                    (case w_disk w (path @ page_file) of
                       Some (File page_soup) \<Rightarrow>
                         migrate_page self uuid path sp_fields elements_to_remove page_name
                           page_file page_soup w
                     | _ \<Rightarrow> (Continue, w)))))"

text \<open>
  The loop over \<open>pageSection\<close>. An exception leaves the loop and reaches the handlers of
  the method, which return \<open>False\<close>; after the last page the method returns \<open>True\<close>.
\<close>

fun pages_loop :: "importer \<Rightarrow> (nat \<Rightarrow> string) \<Rightarrow> string \<Rightarrow> (string \<times> string) list
    \<Rightarrow> string list \<Rightarrow> node list \<Rightarrow> world \<Rightarrow> bool \<times> world" where
  "pages_loop self uuid path sp_fields elements_to_remove [] w = (True, w)"
| "pages_loop self uuid path sp_fields elements_to_remove (page # pages) w =
     (case process_page self uuid path sp_fields elements_to_remove page w of
        (Continue, w') \<Rightarrow> pages_loop self uuid path sp_fields elements_to_remove pages w'
      | (Raise e, w') \<Rightarrow> (False, w'))"

text \<open>
  The method. A missing path or index file ends in the bare \<open>raise\<close>, and the handler
  returns \<open>False\<close>. \<open>pageInfo\<close> is \<open>soup.select(".confluenceTable td")\<close>, and
  \<open>pageInfo[1]\<close> raises \<open>IndexError\<close> when there is exactly one cell; \<open>pageSection\<close>
  is \<open>soup.select(".pageSection li")\<close>; \<open>open\<close> of the style sheet raises when the path
  is a directory.
\<close>

definition parse_confluence_HTML :: "importer \<Rightarrow> (nat \<Rightarrow> string) \<Rightarrow> string
    \<Rightarrow> (string \<times> string) list \<Rightarrow> string list \<Rightarrow> world \<Rightarrow> bool \<times> world" where
  "parse_confluence_HTML self uuid path sp_fields elements_to_remove w =
     (if w_disk w path = None \<or> \<not> isfile (w_disk w) (path @ ''index.html'') then (False, w)
      else
        (case w_disk w (path @ ''index.html'') of
           Some (File soup) \<Rightarrow>
             (let pageInfo = select [class_sel ''confluenceTable'', type_sel ''td''] soup;
                  pageSection = select [class_sel ''pageSection'', type_sel ''li''] soup
              in
              if length pageInfo = 1 then (False, w)
              else if w_disk w (path @ (if windows_path self
                                        then ''styles'' @ [CHR 0x5C] @ ''site.css''
                                        else ''styles/site.css'')) = Some Directory
              then (False, w)
              else pages_loop self uuid path sp_fields elements_to_remove
                     (map (\<lambda>p. the (get_at soup p)) pageSection) w)
         | _ \<Rightarrow> (False, w)))"

section \<open>Notions used in the statements and proofs\<close>

text \<open>A function on nodes that changes nothing but the attributes of a tag.\<close>

definition attr_only :: "(node \<Rightarrow> node) \<Rightarrow> bool" where
  "attr_only f = ((\<forall>n a cs. \<exists>a'. f (Tag n a cs) = Tag n a' cs) \<and> (\<forall>s. f (NavigableString s) = NavigableString s))"

text \<open>The attributes \<open>fixAttachmentsPath\<close> leaves on a tag with name \<open>n\<close> and attributes \<open>a\<close>;
  \<open>None\<close> when the key it reads is missing.\<close>

definition rewritten :: "importer \<Rightarrow> string \<Rightarrow> attrs \<Rightarrow> attrs option" where
  "rewritten self n a =
     (if n = ''a'' then
        map_option (\<lambda>h. AList.update ''href'' (main_path self @ ''/'' @ h) a) (map_of a ''href'')
      else if n = ''img'' then
        map_option (\<lambda>s. AList.update ''href'' (main_path self @ ''/'' @ s)
                          (AList.update ''src'' (main_path self @ ''/'' @ s) a)) (map_of a ''src'')
      else Some a)"

text \<open>The update the loop of \<open>fixAttachmentsPath\<close> makes on such a tag.\<close>

definition step_fun :: "importer \<Rightarrow> string \<Rightarrow> attrs \<Rightarrow> node \<Rightarrow> node" where
  "step_fun self n a =
     (if n = ''a'' then set_item ''href'' (main_path self @ ''/'' @ the (map_of a ''href''))
      else if n = ''img'' then
        (\<lambda>x. set_item ''href'' (main_path self @ ''/'' @ the (map_of a ''src''))
               (set_item ''src'' (main_path self @ ''/'' @ the (map_of a ''src'')) x))
      else (\<lambda>x. x))"

text \<open>The tag at a path has the key the loop of \<open>fixAttachmentsPath\<close> reads.\<close>

definition okp :: "importer \<Rightarrow> node \<Rightarrow> path \<Rightarrow> bool" where
  "okp self t p = (case tag_at t p of None \<Rightarrow> False | Some (n, a) \<Rightarrow> rewritten self n a \<noteq> None)"




text \<open>
  The identifiers a dictionary carries: \<open>id\<close>, \<open>uniqueId\<close> and \<open>properties.id\<close> of an
  image, \<open>id\<close> of the rich text.
\<close>

fun block_idents :: "block \<Rightarrow> string list" where
  "block_idents (ImageBlock i inst src u pid s w l) = [i, u, pid]"
| "block_idents (RichTextBlock i t) = [i]"
| "block_idents SettingsBlock = []"

definition canvas_idents :: "block list \<Rightarrow> string list" where
  "canvas_idents c = concat (map block_idents c)"

text \<open>The image dictionaries the loop appends for the images \<open>ps\<close>, from call \<open>k\<close> on.\<close>

fun image_blocks :: "importer \<Rightarrow> (nat \<Rightarrow> string) \<Rightarrow> node \<Rightarrow> nat \<Rightarrow> path list \<Rightarrow> block list" where
  "image_blocks self uuid t0 k [] = []"
| "image_blocks self uuid t0 k (p # ps) =
     ImageBlock (uuid k) (uuid k) (the (map_of (snd (the (tag_at t0 p))) ''src''))
       (uuid (k + 1)) (uuid (k + 2)) (site_id self) (web_id self) (''{'' @ list_id self @ ''}'')
     # image_blocks self uuid t0 (k + 3) ps"

text \<open>An image carries a \<open>src\<close>; an image has no contents (it is a void element).\<close>

definition has_src :: "node \<Rightarrow> path \<Rightarrow> bool" where
  "has_src t p = (case tag_at t p of None \<Rightarrow> False | Some (n, a) \<Rightarrow> map_of a ''src'' \<noteq> None)"


text \<open>The canvas of a result of \<open>getSPPageCanvas\<close> (empty when it raised).\<close>

definition canvas_of :: "exn + (block list \<times> node \<times> nat) \<Rightarrow> block list" where
  "canvas_of r = (case r of Inl e \<Rightarrow> [] | Inr (c, t, k) \<Rightarrow> c)"

text \<open>\<open>link["href"]\<close> of a link found in \<open>t0\<close>.\<close>

definition href_at :: "node \<Rightarrow> path \<Rightarrow> string" where
  "href_at t0 l = the (map_of (snd (the (tag_at t0 l))) ''href'')"

text \<open>The descriptors of the files of a folder that have a given name.\<close>

definition named :: "string \<Rightarrow> store \<Rightarrow> string \<Rightarrow> (string \<times> string) list" where
  "named fname s folder = filter (\<lambda>d. fst d = fname) (files_of s folder)"

text \<open>
  The values an iteration of the driver computes before it creates the page: the user found
  for the author, the Store after the user lookup and the attachment upload, and the main
  content after \<open>fixAttachmentsPath\<close> and \<open>fixAnchors\<close>.
\<close>

definition page_author_name :: "node \<Rightarrow> string" where
  "page_author_name page_soup =
     (case select_one [class_sel ''author''] page_soup of
        None \<Rightarrow> []
      | Some page_author \<Rightarrow> text_at page_soup page_author)"






section \<open>Example inputs\<close>

text \<open>
  An importer object; content fragments with an image, with an attachment link, with two
  links, with a heading and links to anchors; a sequence of identifiers; a Store with one
  uploaded file and a local attachment; an export of two pages with its index, and the
  Store of a site with and without failing round trips.
\<close>

definition demo_importer :: importer where
  "demo_importer = \<lparr>base_url = ''https://sp'', assets_folder = ''assets'', windows_path = False,
     site_id = ''s1'', web_id = ''w1'', list_id = ''l1''\<rparr>"

definition demo_img_page :: node where
  "demo_img_page = Tag ''div'' [(''id'', ''main-content'')]
     [Tag ''img'' [(''data-linked-resource-type'', ''attachment''), (''src'', ''x.png'')] []]"

definition demo_link_page :: node where
  "demo_link_page = Tag ''div'' [(''id'', ''main-content'')]
     [Tag ''a'' [(''data-linked-resource-type'', ''attachment''), (''href'', ''f.pdf'')]
        [NavigableString ''file'']]"

definition demo_links_page :: node where
  "demo_links_page = Tag ''div'' [(''id'', ''main-content'')]
     [Tag ''a'' [(''href'', ''one.html'')] [NavigableString ''One''],
      Tag ''a'' [(''href'', ''two.html'')] [NavigableString ''Two'']]"

definition demo_uuid :: "nat \<Rightarrow> string" where
  "demo_uuid n = replicate (Suc n) (CHR ''u'')"



definition demo_html :: node where
  "demo_html = Tag ''[document]'' [] []"

definition demo_store :: store where
  "demo_store = \<lparr>folders = (\<lambda>f. None)(''assets/Intro'' :=
        Some [(''img1.png'', ''/sites/wiki/assets/Intro/img1.png'')]),
     site_users = (\<lambda>n. []), list_items = (\<lambda>n. []), faults = [], calls = []\<rparr>"

definition demo_fs :: filesystem where
  "demo_fs = (\<lambda>p. None)(''export/attachments/Intro/img1.png'' := Some (File demo_html))"

definition demo_li :: "string \<Rightarrow> string \<Rightarrow> node" where
  "demo_li title file = Tag ''li'' [] [Tag ''a'' [(''href'', file)] [NavigableString title]]"

definition demo_index :: "node list \<Rightarrow> node" where
  "demo_index lis = Tag ''[document]'' []
     [Tag ''table'' [(''class'', ''confluenceTable'')]
        [Tag ''tr'' [] [Tag ''td'' [] [NavigableString ''Space''],
                        Tag ''td'' [] [NavigableString ''Wiki'']]],
      Tag ''div'' [(''class'', ''pageSection'')] [Tag ''ul'' [] lis]]"

definition demo_page :: node where
  "demo_page = Tag ''[document]'' []
     [Tag ''div'' [(''id'', ''main-content'')] [Tag ''p'' [] [NavigableString ''Hello'']]]"

definition demo_site :: "bool list \<Rightarrow> store" where
  "demo_site fl = \<lparr>folders = (\<lambda>f. None), site_users = (\<lambda>n. []),
     list_items = (\<lambda>n. [(7, ''/SitePages/'' @ n @ ''.aspx'')]), faults = fl, calls = []\<rparr>"

definition demo_disk2 :: "node \<Rightarrow> filesystem" where
  "demo_disk2 first = (\<lambda>p. None)(''export/'' := Some Directory,
     ''export/index.html'' :=
        Some (File (demo_index [demo_li ''Page  One'' ''one.html'', demo_li ''Page Two'' ''two.html''])),
     ''export/one.html'' := Some (File first),
     ''export/two.html'' := Some (File demo_page))"

definition demo_world :: "filesystem \<Rightarrow> store \<Rightarrow> world" where
  "demo_world d s = \<lparr>w_disk = d, w_store = s, w_log = [], w_uuid = 0\<rparr>"

definition demo_no_main :: node where
  "demo_no_main = Tag ''[document]'' [] [Tag ''div'' [] [Tag ''p'' [] [NavigableString ''Hello'']]]"

definition demo_empty_main :: node where
  "demo_empty_main = Tag ''[document]'' []
     [Tag ''div'' [(''id'', ''main-content'')] [NavigableString ''  '']]"

text \<open>
  A page with a corner container of the class \<open>rw_corners\<close> in its main content, a link to
  an anchor that is not there, an attachment whose file is missing and an author; the list
  of classes is the one \<open>test.py\<close> passes.
\<close>

definition demo_rough_page :: node where
  "demo_rough_page = Tag ''[document]'' []
     [Tag ''span'' [(''class'', ''author'')] [NavigableString ''Ann''],
      Tag ''div'' [(''id'', ''main-content'')]
        [Tag ''div'' [(''class'', ''rw_corners rw_top'')] [NavigableString ''corner''],
         Tag ''a'' [(''href'', ''#nowhere'')] [NavigableString ''lost''],
         NavigableString ''text''],
      Tag ''div'' [(''class'', ''pageSection'')]
        [Tag ''div'' [(''class'', ''greybox'')]
           [Tag ''a'' [(''href'', ''attachments/1/a.png'')] [NavigableString ''a.png'']]]]"

definition demo_elements :: "string list" where
  "demo_elements = [''rw_corners'', ''wysiwyg-unknown-macro'']"

definition demo_site_no_items :: store where
  "demo_site_no_items = \<lparr>folders = (\<lambda>f. None), site_users = (\<lambda>n. []),
     list_items = (\<lambda>n. []), faults = [], calls = []\<rparr>"

section \<open>Updating a tag in place\<close>

lemma attr_only_set_item: "attr_only (set_item k v)"
  by (simp add: attr_only_def)

lemma attr_only_comp: "attr_only f \<Longrightarrow> attr_only g \<Longrightarrow> attr_only (\<lambda>x. f (g x))"
  unfolding attr_only_def by metis

lemma get_at_update_same: "get_at (update_at p f t) p = map_option f (get_at t p)"
proof (induction p arbitrary: t)
  case Nil
  then show ?case by simp
next
  case (Cons i p)
  then show ?case by (cases t) auto
qed

lemma attr_only_get_at_Cons:
  assumes "attr_only f"
  shows "get_at (f t) (j # q) = get_at t (j # q)"
proof (cases t)
  case (NavigableString s)
  with assms show ?thesis by (simp add: attr_only_def)
next
  case (Tag n a cs)
  from assms obtain a' where "f (Tag n a cs) = Tag n a' cs"
    unfolding attr_only_def by blast
  with Tag show ?thesis by simp
qed

lemma get_at_update_below:
  assumes "attr_only f"
  shows "get_at (update_at p f t) (p @ j # q) = get_at t (p @ j # q)"
proof (induction p arbitrary: t)
  case Nil
  then show ?case using attr_only_get_at_Cons[OF assms] by simp
next
  case (Cons i p)
  then show ?case by (cases t) auto
qed

lemma tag_at_update_other:
  assumes "attr_only f" and "p \<noteq> q"
  shows "tag_at (update_at p f t) q = tag_at t q"
  using assms(2)
proof (induction p arbitrary: t q)
  case Nil
  then obtain j q' where q: "q = j # q'" by (cases q) auto
  show ?case unfolding tag_at_def q using attr_only_get_at_Cons[OF assms(1)] by simp
next
  case (Cons i p)
  show ?case
  proof (cases t)
    case (NavigableString s)
    then show ?thesis by simp
  next
    case (Tag n a cs)
    show ?thesis
    proof (cases q)
      case Nil
      with Tag show ?thesis by (simp add: tag_at_def)
    next
      case (Cons j q')
      show ?thesis
      proof (cases "j = i")
        case True
        with Cons.prems Cons have "p \<noteq> q'" by simp
        from Cons.IH[OF this, of "cs ! i"] Tag Cons True show ?thesis
          by (simp add: tag_at_def)
      next
        case False
        with Tag Cons show ?thesis by (simp add: tag_at_def)
      qed
    qed
  qed
qed

lemma tag_at_update_same:
  "tag_at (update_at p (set_item k v) t) p = map_option (\<lambda>(n, a). (n, AList.update k v a)) (tag_at t p)"
  unfolding tag_at_def get_at_update_same
  by (auto split: option.splits node.splits)

lemma update_at_id: "update_at p (\<lambda>x. x) t = t"
proof (induction p arbitrary: t)
  case Nil
  then show ?case by simp
next
  case (Cons i p)
  then show ?case by (cases t) auto
qed

lemma attr_only_id: "attr_only (\<lambda>x. x)"
  by (simp add: attr_only_def)

lemma attr_only_step_fun: "attr_only (step_fun self n a)"
  unfolding step_fun_def
  by (simp add: attr_only_set_item attr_only_id attr_only_comp)

lemma fix_Cons:
  "fixAttachmentsPath self (p # ps) t =
     (case tag_at t p of
        None \<Rightarrow> (False, t)
      | Some (n, a) \<Rightarrow>
          if rewritten self n a = None then (False, t)
          else fixAttachmentsPath self ps (update_at p (step_fun self n a) t))"
  by (auto simp: tag_at_def rewritten_def step_fun_def update_at_id
           split: option.splits node.splits)

lemma tag_at_step_same:
  assumes "tag_at t p = Some (n, a)" and "rewritten self n a = Some a'"
  shows "tag_at (update_at p (step_fun self n a) t) p = Some (n, a')"
proof -
  from assms(1) obtain cs where g: "get_at t p = Some (Tag n a cs)"
    by (auto simp: tag_at_def split: option.splits node.splits)
  have "step_fun self n a (Tag n a cs) = Tag n a' cs"
    using assms(2) by (auto simp: step_fun_def rewritten_def split: if_splits)
  then show ?thesis by (simp add: tag_at_def get_at_update_same g)
qed

lemma fix_tag_at_other:
  "q \<notin> set ps \<Longrightarrow> tag_at (snd (fixAttachmentsPath self ps t)) q = tag_at t q"
proof (induction ps arbitrary: t)
  case Nil
  then show ?case by simp
next
  case (Cons p ps)
  then have ne: "p \<noteq> q" and nin: "q \<notin> set ps" by auto
  show ?case
    unfolding fix_Cons
    using Cons.IH[OF nin] tag_at_update_other[OF attr_only_step_fun ne]
    by (auto split: option.splits)
qed

lemma fix_main:
  assumes "fixAttachmentsPath self ps t = (True, t')" and "distinct ps" and "p \<in> set ps"
    and "tag_at t p = Some (n, a)"
  shows "\<exists>a'. rewritten self n a = Some a' \<and> tag_at t' p = Some (n, a')"
  using assms
proof (induction ps arbitrary: t)
  case Nil
  then show ?case by simp
next
  case (Cons q qs)
  from Cons.prems(1) obtain m b where tq: "tag_at t q = Some (m, b)"
    unfolding fix_Cons by (auto split: option.splits)
  with Cons.prems(1) obtain b' where rw: "rewritten self m b = Some b'"
    and rest: "fixAttachmentsPath self qs (update_at q (step_fun self m b) t) = (True, t')"
    unfolding fix_Cons by (auto split: if_splits)
  show ?case
  proof (cases "p = q")
    case True
    with Cons.prems(2) have "p \<notin> set qs" by simp
    from fix_tag_at_other[OF this, of self "update_at q (step_fun self m b) t"] rest
    have "tag_at t' p = tag_at (update_at q (step_fun self m b) t) p" by simp
    also have "\<dots> = Some (m, b')" using tag_at_step_same[OF tq rw] True by simp
    finally show ?thesis using True tq Cons.prems(4) rw by simp
  next
    case False
    with Cons.prems(3) have pin: "p \<in> set qs" by simp
    have "tag_at (update_at q (step_fun self m b) t) p = Some (n, a)"
      using tag_at_update_other[OF attr_only_step_fun, of q p] False Cons.prems(4) by simp
    from Cons.IH[OF rest _ pin this] Cons.prems(2) show ?thesis by simp
  qed
qed

lemma rewritten_again: "rewritten self n a = Some a' \<Longrightarrow> rewritten self n a' \<noteq> None"
  by (auto simp: rewritten_def update_conv' split: if_splits)

lemma okp_step:
  assumes "tag_at t q = Some (m, b)" and "rewritten self m b = Some b'"
  shows "okp self (update_at q (step_fun self m b) t) p = okp self t p"
proof (cases "p = q")
  case True
  then show ?thesis
    using tag_at_step_same[OF assms] assms rewritten_again[OF assms(2)]
    by (simp add: okp_def)
next
  case False
  then show ?thesis
    using tag_at_update_other[OF attr_only_step_fun, of q p] by (simp add: okp_def)
qed

lemma fix_okp:
  "fixAttachmentsPath self ps t = (True, t') \<Longrightarrow> okp self t' p = okp self t p"
proof (induction ps arbitrary: t)
  case Nil
  then show ?case by simp
next
  case (Cons q qs)
  from Cons.prems obtain m b where tq: "tag_at t q = Some (m, b)"
    unfolding fix_Cons by (auto split: option.splits)
  with Cons.prems obtain b' where rw: "rewritten self m b = Some b'"
    and rest: "fixAttachmentsPath self qs (update_at q (step_fun self m b) t) = (True, t')"
    unfolding fix_Cons by (auto split: if_splits)
  from Cons.IH[OF rest] okp_step[OF tq rw] show ?case by simp
qed

lemma fix_fst: "fst (fixAttachmentsPath self ps t) = list_all (okp self t) ps"
proof (induction ps arbitrary: t)
  case Nil
  then show ?case by simp
next
  case (Cons q qs)
  show ?case
  proof (cases "tag_at t q")
    case None
    then show ?thesis unfolding fix_Cons by (simp add: okp_def)
  next
    case (Some nb)
    obtain m b where nb: "nb = (m, b)" by (cases nb)
    show ?thesis
    proof (cases "rewritten self m b")
      case None
      with Some nb show ?thesis unfolding fix_Cons by (simp add: okp_def)
    next
      case (Some b')
      have tq: "tag_at t q = Some (m, b)" using \<open>tag_at t q = Some nb\<close> nb by simp
      have "list_all (okp self (update_at q (step_fun self m b) t)) qs = list_all (okp self t) qs"
        using okp_step[OF tq Some] by (simp add: list_all_iff)
      moreover have "okp self t q" using tq Some by (simp add: okp_def)
      moreover have "fixAttachmentsPath self (q # qs) t =
          fixAttachmentsPath self qs (update_at q (step_fun self m b) t)"
        unfolding fix_Cons using tq Some by simp
      ultimately show ?thesis
        using Cons.IH[of "update_at q (step_fun self m b) t"] by simp
    qed
  qed
qed

lemma fix_again:
  assumes "fixAttachmentsPath self ps t = (True, t')"
  shows "fst (fixAttachmentsPath self ps t')"
proof -
  have "list_all (okp self t) ps" using fix_fst[of self ps t] assms by simp
  then have "list_all (okp self t') ps" using fix_okp[OF assms] by (simp add: list_all_iff)
  then show ?thesis by (simp add: fix_fst)
qed

section \<open>fixAttachmentsPath: what a call rewrites\<close>

text \<open>
  Claim C10. Every \<open>img\<close> element passed to \<open>fixAttachmentsPath\<close> gets both its
  \<open>src\<close> and an \<open>href\<close> attribute, set to the same absolute URL: base URL, \<open>/\<close>,
  assets folder, \<open>/\<close>, original \<open>src\<close>. The elements are distinct tag objects (paths)
  of one tree, the call returns \<open>True\<close>, and the image carried a \<open>src\<close>.
\<close>

theorem fixAttachmentsPath_img_src_href:
  assumes "fixAttachmentsPath self ps t = (True, t')" and "distinct ps" and "p \<in> set ps"
    and "tag_at t p = Some (''img'', a)" and "map_of a ''src'' = Some s"
  shows "\<exists>a'. tag_at t' p = Some (''img'', a')
           \<and> map_of a' ''src'' = Some (base_url self @ ''/'' @ assets_folder self @ ''/'' @ s)
           \<and> map_of a' ''href'' = Some (base_url self @ ''/'' @ assets_folder self @ ''/'' @ s)"
proof -
  from fix_main[OF assms(1-4)] obtain a' where
    rw: "rewritten self ''img'' a = Some a'" and t': "tag_at t' p = Some (''img'', a')" by blast
  from rw assms(5) have "a' = AList.update ''href'' (main_path self @ ''/'' @ s)
      (AList.update ''src'' (main_path self @ ''/'' @ s) a)"
    by (simp add: rewritten_def)
  then have "map_of a' ''src'' = Some (main_path self @ ''/'' @ s)"
    and "map_of a' ''href'' = Some (main_path self @ ''/'' @ s)"
    by (simp_all add: update_conv')
  with t' show ?thesis by (simp add: main_path_def)
qed

lemma find_all_demo: "find_all attachment_match demo_img_page = [[0]]"
  by (simp add: find_all_def descendants_def demo_img_page_def attachment_match_def)

theorem fixAttachmentsPath_img_src_href_witness:
  "find_all attachment_match demo_img_page = [[0]]
   \<and> (\<exists>a'. tag_at (snd (fixAttachmentsPath demo_importer [[0]] demo_img_page)) [0] = Some (''img'', a')
           \<and> map_of a' ''src'' = Some (''https://sp/assets/x.png'')
           \<and> map_of a' ''href'' = Some (''https://sp/assets/x.png''))"
proof -
  have run: "fixAttachmentsPath demo_importer [[0]] demo_img_page =
      (True, snd (fixAttachmentsPath demo_importer [[0]] demo_img_page))"
    by (simp add: demo_img_page_def)
  have tg: "tag_at demo_img_page [0] =
      Some (''img'', [(''data-linked-resource-type'', ''attachment''), (''src'', ''x.png'')])"
    by (simp add: tag_at_def demo_img_page_def)
  from fixAttachmentsPath_img_src_href[OF run _ _ tg, of "''x.png''"]
  show ?thesis by (simp add: demo_importer_def find_all_demo)
qed

text \<open>
  Claim C2 as stated fails: the method has no guard for URLs that are already absolute. On a
  page with one attachment link \<open>f.pdf\<close> the second call prefixes the prefixed URL again.
\<close>

theorem fixAttachmentsPath_idempotent_counterexample:
  "find_all attachment_match demo_link_page = [[0]]
   \<and> fixAttachmentsPath demo_importer [[0]] demo_link_page =
       (True, Tag ''div'' [(''id'', ''main-content'')]
          [Tag ''a'' [(''data-linked-resource-type'', ''attachment''),
                      (''href'', ''https://sp/assets/f.pdf'')] [NavigableString ''file'']])
   \<and> fixAttachmentsPath demo_importer [[0]]
         (snd (fixAttachmentsPath demo_importer [[0]] demo_link_page)) =
       (True, Tag ''div'' [(''id'', ''main-content'')]
          [Tag ''a'' [(''data-linked-resource-type'', ''attachment''),
                      (''href'', ''https://sp/assets/https://sp/assets/f.pdf'')]
             [NavigableString ''file'']])
   \<and> snd (fixAttachmentsPath demo_importer [[0]]
         (snd (fixAttachmentsPath demo_importer [[0]] demo_link_page)))
       \<noteq> snd (fixAttachmentsPath demo_importer [[0]] demo_link_page)"
  by (simp add: find_all_def descendants_def attachment_match_def demo_link_page_def
        demo_importer_def main_path_def)

text \<open>
  Claim C2, amended. Rewriting is not idempotent: the method prefixes unconditionally. When a
  first call on distinct elements has succeeded, a second call on the same elements succeeds
  too, and the \<open>href\<close> of every \<open>a\<close> (the \<open>src\<close> of every \<open>img\<close>) becomes
  \<open>main_path/main_path/original\<close>: it differs from the value after the first call.
\<close>

theorem fixAttachmentsPath_twice_prefixes_twice:
  assumes "fixAttachmentsPath self ps t = (True, t')" and "distinct ps" and "p \<in> set ps"
    and "tag_at t p = Some (n, a)"
    and "n = ''a'' \<and> k = ''href'' \<or> n = ''img'' \<and> k = ''src''"
    and "map_of a k = Some v"
  shows "\<exists>t'' a' a''. fixAttachmentsPath self ps t' = (True, t'')
           \<and> tag_at t' p = Some (n, a') \<and> tag_at t'' p = Some (n, a'')
           \<and> map_of a' k = Some (main_path self @ ''/'' @ v)
           \<and> map_of a'' k = Some (main_path self @ ''/'' @ main_path self @ ''/'' @ v)
           \<and> map_of a'' k \<noteq> map_of a' k"
proof -
  from fix_main[OF assms(1-4)] obtain a' where
    rw: "rewritten self n a = Some a'" and t': "tag_at t' p = Some (n, a')" by blast
  have k': "map_of a' k = Some (main_path self @ ''/'' @ v)"
    using rw assms(5,6) by (auto simp: rewritten_def update_conv')
  obtain t'' where run2: "fixAttachmentsPath self ps t' = (True, t'')"
    using fix_again[OF assms(1)] by (cases "fixAttachmentsPath self ps t'") auto
  from fix_main[OF run2 assms(2,3) t'] obtain a'' where
    rw2: "rewritten self n a' = Some a''" and t'': "tag_at t'' p = Some (n, a'')" by blast
  have k'': "map_of a'' k = Some (main_path self @ ''/'' @ main_path self @ ''/'' @ v)"
    using rw2 assms(5) k' by (auto simp: rewritten_def update_conv')
  have "map_of a'' k \<noteq> map_of a' k" using k' k'' by simp
  with run2 t' t'' k' k'' show ?thesis by blast
qed

theorem fixAttachmentsPath_twice_prefixes_twice_witness:
  "\<exists>t'' a' a''. fixAttachmentsPath demo_importer [[0]]
           (snd (fixAttachmentsPath demo_importer [[0]] demo_link_page)) = (True, t'')
     \<and> tag_at (snd (fixAttachmentsPath demo_importer [[0]] demo_link_page)) [0] = Some (''a'', a')
     \<and> tag_at t'' [0] = Some (''a'', a'')
     \<and> map_of a' ''href'' = Some ''https://sp/assets/f.pdf''
     \<and> map_of a'' ''href'' = Some ''https://sp/assets/https://sp/assets/f.pdf''
     \<and> map_of a'' ''href'' \<noteq> map_of a' ''href''"
proof -
  have run: "fixAttachmentsPath demo_importer [[0]] demo_link_page =
      (True, snd (fixAttachmentsPath demo_importer [[0]] demo_link_page))"
    by (simp add: demo_link_page_def)
  have tg: "tag_at demo_link_page [0] =
      Some (''a'', [(''data-linked-resource-type'', ''attachment''), (''href'', ''f.pdf'')])"
    by (simp add: tag_at_def demo_link_page_def)
  have mp: "main_path demo_importer = ''https://sp/assets''"
    by (simp add: main_path_def demo_importer_def)
  from fixAttachmentsPath_twice_prefixes_twice[OF run _ _ tg, of "''href''" "''f.pdf''"]
  show ?thesis unfolding mp by simp
qed

section \<open>logLinks: what is logged\<close>

text \<open>
  Claim C9 fails on the code. A page with two links, \<open>one.html\<close> and \<open>two.html\<close>, was
  migrated to \<open>/SitePages/p.aspx\<close>. Both are links the method is meant to log: each
  \<open>href\<close> contains \<open>html\<close>. The test and the call of \<open>logging.info\<close> stand after the
  loop, so \<open>logLinks\<close> returns \<open>True\<close> and appends one line, for the last link; the log
  has no line for \<open>one.html\<close>.
\<close>

theorem logLinks_logs_last_link_only:
  "find_all a_href_match demo_links_page = [[0], [1]]
   \<and> map (href_at demo_links_page) [[0], [1]] = [''one.html'', ''two.html'']
   \<and> sublist ''html'' ''one.html'' \<and> sublist ''html'' ''two.html''
   \<and> logLinks demo_links_page [[0], [1]] ''/SitePages/p.aspx'' [] =
       (True, [''Link: two.html. Text: Two. URL: /SitePages/p.aspx  ''])
   \<and> ''Link: one.html. Text: One. URL: /SitePages/p.aspx  '' \<notin>
       set (snd (logLinks demo_links_page [[0], [1]] ''/SitePages/p.aspx'' []))"
  by (simp add: find_all_def descendants_def a_href_match_def demo_links_page_def href_at_def
        logLinks_def tag_at_def text_at_def log_line_def sublist_Cons_right)

section \<open>Paths of a tree\<close>










section \<open>getSPPageCanvas: the blocks and the placeholders\<close>









lemma images_loop_Cons:
  assumes "has_src t0 p"
  shows "images_loop self uuid t0 (p # ps) replaced k t canvas_dict =
     images_loop self uuid t0 ps (p # replaced) (k + 3)
       (if list_ex (\<lambda>q. strict_prefix q p) replaced then t
        else update_at p (\<lambda>x. placeholder (uuid k)) t)
       (canvas_dict @ [hd (image_blocks self uuid t0 k [p])])"
  using assms by (auto simp: has_src_def Let_def split: option.splits)

lemma images_loop_canvas:
  assumes "list_all (has_src t0) ps"
  shows "\<exists>t'. images_loop self uuid t0 ps replaced k t canvas_dict =
     Inr (canvas_dict @ image_blocks self uuid t0 k ps, t', k + 3 * length ps)"
  using assms
proof (induction ps arbitrary: replaced k t canvas_dict)
  case Nil
  then show ?case by simp
next
  case (Cons p ps)
  then have hp: "has_src t0 p" and rest: "list_all (has_src t0) ps" by simp_all
  let ?t1 = "if list_ex (\<lambda>q. strict_prefix q p) replaced then t
        else update_at p (\<lambda>x. placeholder (uuid k)) t"
  from Cons.IH[OF rest, of "p # replaced" "k + 3" ?t1
      "canvas_dict @ [hd (image_blocks self uuid t0 k [p])]"]
  obtain t' where "images_loop self uuid t0 ps (p # replaced) (k + 3) ?t1
      (canvas_dict @ [hd (image_blocks self uuid t0 k [p])]) =
      Inr ((canvas_dict @ [hd (image_blocks self uuid t0 k [p])])
             @ image_blocks self uuid t0 (k + 3) ps, t', k + 3 + 3 * length ps)"
    by blast
  then have "images_loop self uuid t0 (p # ps) replaced k t canvas_dict =
      Inr (canvas_dict @ image_blocks self uuid t0 k (p # ps), t', k + 3 * length (p # ps))"
    unfolding images_loop_Cons[OF hp] by simp
  then show ?case by blast
qed



lemma image_blocks_idents:
  "canvas_idents (image_blocks self uuid t0 k ps) = map uuid [k ..< k + 3 * length ps]"
proof (induction ps arbitrary: k)
  case Nil
  then show ?case by (simp add: canvas_idents_def)
next
  case (Cons p ps)
  have e: "k + 3 * length (p # ps) = Suc (Suc (Suc (k + 3 * length ps)))" by simp
  have "[k ..< k + 3 * length (p # ps)] =
      k # Suc k # Suc (Suc k) # [Suc (Suc (Suc k)) ..< Suc (Suc (Suc (k + 3 * length ps)))]"
    unfolding e by (simp add: upt_conv_Cons del: upt_Suc)
  then have "[k ..< k + 3 * length (p # ps)] =
      k # (k + 1) # (k + 2) # [k + 3 ..< k + 3 + 3 * length ps]"
    by (simp add: numeral_3_eq_3)
  with Cons[of "k + 3"] show ?case by (simp add: canvas_idents_def)
qed


lemma images_loop_Inr_has_src:
  "images_loop self uuid t0 ps replaced k t canvas_dict = Inr r \<Longrightarrow> list_all (has_src t0) ps"
proof (induction ps arbitrary: replaced k t canvas_dict)
  case Nil
  then show ?case by simp
next
  case (Cons p ps)
  have hp: "has_src t0 p"
  proof (rule ccontr)
    assume "\<not> has_src t0 p"
    then have "\<exists>e. images_loop self uuid t0 (p # ps) replaced k t canvas_dict = Inl e"
      by (auto simp: has_src_def Let_def split: option.splits)
    with Cons.prems show False by auto
  qed
  from Cons.prems have "list_all (has_src t0) ps"
    unfolding images_loop_Cons[OF hp] by (rule Cons.IH)
  with hp show ?case by simp
qed


lemma find_all_img_demo:
  "find_all img_match demo_img_page = [[0]]" "find_all img_match demo_link_page = []"
  by (simp_all add: find_all_def descendants_def demo_img_page_def demo_link_page_def img_match_def)


text \<open>
  Claim C6 as stated fails: the \<open>id\<close> of the rich-text block is a literal of the source.
  Two builds of the same page, the second one a retry that draws new values from
  \<open>uuid4\<close>, both produce a block with that identifier.
\<close>

theorem getSPPageCanvas_fresh_identifiers_counterexample:
  "canvas_idents (canvas_of (getSPPageCanvas demo_importer demo_uuid 0 demo_img_page)) =
       [''u'', ''uu'', ''uuu'', ''7802ec32-078a-42a7-b455-8eae2538781f'']
   \<and> canvas_idents (canvas_of (getSPPageCanvas demo_importer demo_uuid 3 demo_img_page)) =
       [''uuuu'', ''uuuuu'', ''uuuuuu'', ''7802ec32-078a-42a7-b455-8eae2538781f'']
   \<and> ''7802ec32-078a-42a7-b455-8eae2538781f'' \<in>
       set (canvas_idents (canvas_of (getSPPageCanvas demo_importer demo_uuid 0 demo_img_page)))
       \<inter> set (canvas_idents (canvas_of (getSPPageCanvas demo_importer demo_uuid 3 demo_img_page)))"
proof -
  have t: "tag_at demo_img_page [0] =
      Some (''img'', [(''data-linked-resource-type'', ''attachment''), (''src'', ''x.png'')])"
    by (simp add: tag_at_def demo_img_page_def)
  have 1: "canvas_idents (canvas_of (getSPPageCanvas demo_importer demo_uuid 0 demo_img_page)) =
       [''u'', ''uu'', ''uuu'', ''7802ec32-078a-42a7-b455-8eae2538781f'']"
    by (simp add: getSPPageCanvas_def find_all_img_demo t canvas_of_def canvas_idents_def
          demo_uuid_def rte_id_def Let_def)
  have 2: "canvas_idents (canvas_of (getSPPageCanvas demo_importer demo_uuid 3 demo_img_page)) =
       [''uuuu'', ''uuuuu'', ''uuuuuu'', ''7802ec32-078a-42a7-b455-8eae2538781f'']"
    by (simp add: getSPPageCanvas_def find_all_img_demo t canvas_of_def canvas_idents_def
          demo_uuid_def rte_id_def Let_def numeral_3_eq_3)
  show ?thesis unfolding 1 2 by simp
qed

text \<open>
  Claim C6, amended. In the canvas of one build the identifiers (of each image block its
  \<open>id\<close>, \<open>uniqueId\<close> and \<open>properties.id\<close>, and the \<open>id\<close> of the rich-text block) are
  pairwise distinct, provided the values \<open>uuid4\<close> returned during the build are pairwise
  distinct and none of them is the literal \<open>id\<close> of the rich-text block. The identifiers of
  the image blocks are exactly those values, so they are fresh per build; the rich-text
  block carries the same literal identifier in every build.
\<close>

theorem getSPPageCanvas_identifiers:
  assumes "getSPPageCanvas self uuid k content = Inr (canvas, t, k')"
    and "inj_on uuid {k ..< k'}" and "rte_id \<notin> uuid ` {k ..< k'}"
  shows "distinct (canvas_idents canvas)
       \<and> canvas_idents canvas = map uuid [k ..< k'] @ [rte_id]
       \<and> k' = k + 3 * length (find_all img_match content)"
proof -
  let ?ps = "find_all img_match content"
  from assms(1) obtain r where "images_loop self uuid content ?ps [] k content [] = Inr r"
    by (auto simp: getSPPageCanvas_def split: sum.splits)
  then have hs: "list_all (has_src content) ?ps" by (rule images_loop_Inr_has_src)
  from images_loop_canvas[OF hs, of self uuid "[]" k content "[]"]
  obtain t1 where run: "images_loop self uuid content ?ps [] k content [] =
      Inr (image_blocks self uuid content k ?ps, t1, k + 3 * length ?ps)" by auto
  with assms(1) have c: "canvas = image_blocks self uuid content k ?ps
        @ [RichTextBlock rte_id (splice t1), SettingsBlock]"
    and k': "k' = k + 3 * length ?ps"
    by (auto simp: getSPPageCanvas_def)
  have ids: "canvas_idents canvas = map uuid [k ..< k'] @ [rte_id]"
    using image_blocks_idents[of self uuid content k ?ps]
    by (simp add: c k' canvas_idents_def)
  have "distinct (map uuid [k ..< k'])" using assms(2) by (simp add: distinct_map)
  with assms(3) have "distinct (canvas_idents canvas)" by (simp add: ids)
  with ids k' show ?thesis by simp
qed

theorem getSPPageCanvas_identifiers_witness:
  "distinct (canvas_idents (canvas_of (getSPPageCanvas demo_importer demo_uuid 0 demo_img_page)))
   \<and> canvas_idents (canvas_of (getSPPageCanvas demo_importer demo_uuid 0 demo_img_page)) =
       map demo_uuid [0 ..< 3] @ [rte_id]
   \<and> (3 :: nat) = 0 + 3 * length (find_all img_match demo_img_page)"
proof -
  have t: "tag_at demo_img_page [0] =
      Some (''img'', [(''data-linked-resource-type'', ''attachment''), (''src'', ''x.png'')])"
    by (simp add: tag_at_def demo_img_page_def)
  obtain c tr where run: "getSPPageCanvas demo_importer demo_uuid 0 demo_img_page = Inr (c, tr, 3)"
    by (simp add: getSPPageCanvas_def find_all_img_demo t Let_def)
  have inj: "inj_on demo_uuid {0 ..< 3}"
    by (auto simp: inj_on_def demo_uuid_def)
  have nin: "rte_id \<notin> demo_uuid ` {0 ..< 3}"
    by (auto simp: demo_uuid_def rte_id_def)
  from getSPPageCanvas_identifiers[OF run inj nin]
  have d: "distinct (canvas_idents c)"
    and e: "canvas_idents c = map demo_uuid [0 ..< 3] @ [rte_id]"
    and l: "(3 :: nat) = 0 + 3 * length (find_all img_match demo_img_page)"
    by blast+
  have "canvas_of (getSPPageCanvas demo_importer demo_uuid 0 demo_img_page) = c"
    by (simp add: run canvas_of_def)
  with d e l show ?thesis by blast
qed

section \<open>fixAnchors: what a link does to its heading\<close>









section \<open>add_attachments: a file that exists in the target folder\<close>

lemma execute_query_frame:
  assumes "execute_query c s = (ok, s')"
  shows "folders s' = folders s" and "calls s' = calls s @ [c]"
    and "files_of s' f = files_of s f" and "named n s' f = named n s f"
  using assms by (auto simp: execute_query_def files_of_def named_def split: list.splits)

lemma named_upload:
  "filename \<noteq> fname \<Longrightarrow> named fname (upload folder filename s) folder = named fname s folder"
  by (auto simp: named_def upload_def files_of_def intro: filter_cong)

lemma calls_upload: "calls (upload folder filename s) = calls s"
  by (simp add: upload_def)

lemma named_ensure_folder: "named fname (ensure_folder folder s) f = named fname s f"
  by (auto simp: named_def ensure_folder_def files_of_def split: option.splits)

lemma calls_ensure_folder: "calls (ensure_folder folder s) = calls s"
  by (simp add: ensure_folder_def split: option.splits)

lemma add_attachment_existing:
  assumes ex: "named fname s target \<noteq> []"
    and run: "add_attachment fs target False p res s = (r, s')"
  shows "named fname s' target = named fname s target"
    and "\<exists>new. calls s' = calls s @ new \<and> UploadFile target fname \<notin> set new"
    and "r = Some res' \<Longrightarrow> basename p = fname \<Longrightarrow>
           res' p = Some (if fs p = None then not_found_status
                          else exists_status (hd (named fname s target)))"
    and "r = Some res' \<Longrightarrow> q \<noteq> p \<Longrightarrow> res' q = res q"
proof -
  show "named fname s' target = named fname s target"
  proof (cases "fs p")
    case None
    with run show ?thesis by (simp add: add_attachment_def)
  next
    case (Some f)
    obtain ok s1 where q1: "execute_query (FilterFiles target (basename p)) s = (ok, s1)"
      by (cases "execute_query (FilterFiles target (basename p)) s")
    note f1 = execute_query_frame[OF q1]
    show ?thesis
    proof (cases "basename p = fname")
      case True
      with run Some q1 ex f1(4)[of fname target] show ?thesis
        by (auto simp: add_attachment_def Let_def named_def split: if_splits bool.splits)
    next
      case False
      obtain ok2 s2 where q2: "execute_query (UploadFile target (basename p)) s1 = (ok2, s2)"
        by (cases "execute_query (UploadFile target (basename p)) s1")
      note f2 = execute_query_frame[OF q2]
      from run Some q1 q2 f1(4)[of fname target] f2(4)[of fname target]
        named_upload[OF False, of target s2]
      show ?thesis
        by (auto simp: add_attachment_def Let_def split: if_splits bool.splits fobj.splits)
    qed
  qed
next
  show "\<exists>new. calls s' = calls s @ new \<and> UploadFile target fname \<notin> set new"
  proof (cases "fs p")
    case None
    with run show ?thesis by (simp add: add_attachment_def)
  next
    case (Some f)
    obtain ok s1 where q1: "execute_query (FilterFiles target (basename p)) s = (ok, s1)"
      by (cases "execute_query (FilterFiles target (basename p)) s")
    note f1 = execute_query_frame[OF q1]
    obtain ok2 s2 where q2: "execute_query (UploadFile target (basename p)) s1 = (ok2, s2)"
      by (cases "execute_query (UploadFile target (basename p)) s1")
    note f2 = execute_query_frame[OF q2]
    show ?thesis
    proof (cases "basename p = fname")
      case True
      with run Some q1 ex f1(4)[of fname target] f1(2) show ?thesis
        by (auto simp: add_attachment_def Let_def named_def split: if_splits bool.splits)
    next
      case False
      from run Some q1 q2 f1(2) f2(2) False show ?thesis
        by (auto simp: add_attachment_def Let_def calls_upload
                 split: if_splits bool.splits fobj.splits)
    qed
  qed
next
  assume r: "r = Some res'" and b: "basename p = fname"
  show "res' p = Some (if fs p = None then not_found_status
                          else exists_status (hd (named fname s target)))"
  proof (cases "fs p")
    case None
    with run r show ?thesis by (auto simp: add_attachment_def)
  next
    case (Some f)
    obtain ok s1 where q1: "execute_query (FilterFiles target (basename p)) s = (ok, s1)"
      by (cases "execute_query (FilterFiles target (basename p)) s")
    note f1 = execute_query_frame[OF q1]
    from run r Some q1 ex b f1(4)[of fname target] show ?thesis
      by (auto simp: add_attachment_def Let_def named_def split: if_splits bool.splits)
  qed
next
  assume r: "r = Some res'" and ne: "q \<noteq> p"
  from run r ne show "res' q = res q"
    by (auto simp: add_attachment_def Let_def
             split: option.splits if_splits bool.splits fobj.splits prod.splits)
qed

lemma add_attachments_loop_existing:
  assumes "named fname s target \<noteq> []"
    and "add_attachments_loop fs target False files res s = (r, s')"
  shows "named fname s' target = named fname s target
       \<and> (\<exists>new. calls s' = calls s @ new \<and> UploadFile target fname \<notin> set new)
       \<and> (\<forall>res'. r = Some res' \<longrightarrow>
            (\<forall>p. basename p = fname \<longrightarrow>
               res' p = (if p \<in> set files
                         then Some (if fs p = None then not_found_status
                                    else exists_status (hd (named fname s target)))
                         else res p)))"
  using assms
proof (induction files arbitrary: res s)
  case Nil
  then show ?case by auto
next
  case (Cons x files)
  obtain r1 s1 where st: "add_attachment fs target False x res s = (r1, s1)"
    by (cases "add_attachment fs target False x res s")
  note a = add_attachment_existing[OF Cons.prems(1) st]
  show ?case
  proof (cases r1)
    case None
    with Cons.prems(2) st have "r = None" "s' = s1" by simp_all
    with a(1,2) show ?thesis by simp
  next
    case (Some res1)
    with Cons.prems(2) st
    have run: "add_attachments_loop fs target False files res1 s1 = (r, s')" by simp
    have ex1: "named fname s1 target \<noteq> []" using a(1) Cons.prems(1) by simp
    note ih = Cons.IH[OF ex1 run]
    from ih a(2) have c: "\<exists>new. calls s' = calls s @ new \<and> UploadFile target fname \<notin> set new"
      by auto
    have res: "\<forall>res'. r = Some res' \<longrightarrow>
            (\<forall>p. basename p = fname \<longrightarrow>
               res' p = (if p \<in> set (x # files)
                         then Some (if fs p = None then not_found_status
                                    else exists_status (hd (named fname s target)))
                         else res p))"
    proof (intro allI impI)
      fix res' p assume r: "r = Some res'" and b: "basename p = fname"
      from ih r b have e: "res' p = (if p \<in> set files
                         then Some (if fs p = None then not_found_status
                                    else exists_status (hd (named fname s1 target)))
                         else res1 p)" by blast
      show "res' p = (if p \<in> set (x # files)
                         then Some (if fs p = None then not_found_status
                                    else exists_status (hd (named fname s target)))
                         else res p)"
      proof (cases "p = x")
        case True
        with a(3)[OF Some] b have "res1 p = Some (if fs p = None then not_found_status
                          else exists_status (hd (named fname s target)))" by simp
        with e a(1) True show ?thesis by simp
      next
        case False
        with a(4)[OF Some, of p] have "res1 p = res p" by simp
        with e a(1) False show ?thesis by simp
      qed
    qed
    from ih a(1) c res show ?thesis by simp
  qed
qed

lemma add_attachments_try_existing:
  assumes "named fname s (target_of self page_folder) \<noteq> []"
    and "add_attachments_try self fs files page_folder False s = (r, s')"
  shows "named fname s' (target_of self page_folder) = named fname s (target_of self page_folder)
       \<and> (\<exists>new. calls s' = calls s @ new
             \<and> UploadFile (target_of self page_folder) fname \<notin> set new)
       \<and> (\<forall>res'. r = Some res' \<longrightarrow>
            (\<forall>p. basename p = fname \<longrightarrow>
               res' p = (if p \<in> set files
                         then Some (if fs p = None then not_found_status
                                    else exists_status
                                      (hd (named fname s (target_of self page_folder))))
                         else None)))"
proof -
  let ?t = "target_of self page_folder"
  obtain ok1 s1 where q1: "execute_query (EnsureFolder ?t) s = (ok1, s1)"
    by (cases "execute_query (EnsureFolder ?t) s")
  note f1 = execute_query_frame[OF q1]
  obtain ok2 s2 where q2: "execute_query (FolderFiles ?t) (ensure_folder ?t s1) = (ok2, s2)"
    by (cases "execute_query (FolderFiles ?t) (ensure_folder ?t s1)")
  note f2 = execute_query_frame[OF q2]
  have n2: "named fname s2 ?t = named fname s ?t"
    using f1(4)[of fname ?t] f2(4)[of fname ?t] by (simp add: named_ensure_folder)
  have c2: "calls s2 = calls s @ [EnsureFolder ?t, FolderFiles ?t]"
    using f1(2) f2(2) by (simp add: calls_ensure_folder)
  show ?thesis
  proof (cases ok1)
    case False
    with assms(2) q1 have "r = None" "s' = s1" by (simp_all add: add_attachments_try_def)
    with f1(2) f1(4)[of fname ?t] show ?thesis by simp
  next
    case True
    note ok1 = this
    show ?thesis
    proof (cases ok2)
      case False
      with assms(2) q1 q2 ok1 have "r = None" "s' = s2"
        by (simp_all add: add_attachments_try_def)
      with n2 c2 show ?thesis by simp
    next
      case True
      with assms(2) q1 q2 ok1
      have run: "add_attachments_loop fs ?t False files (\<lambda>p. None) s2 = (r, s')"
        by (simp add: add_attachments_try_def)
      have ex2: "named fname s2 ?t \<noteq> []" using n2 assms(1) by simp
      from add_attachments_loop_existing[OF ex2 run] n2 c2 show ?thesis by auto
    qed
  qed
qed

text \<open>
  Claim C8. A file whose name exists in the target folder, \<open>overwrite=False\<close>: the call
  makes no upload round trip for that name, the descriptors of that name in the folder are
  what they were, and the status entry of the file says that it was not uploaded. When no
  exception ends the call and the local file exists, the entry is \<open>Not uploaded: File exists
  and overwrite is set to false\<close> with the name and URL of the existing remote file; when the
  local file is missing it is \<open>Not uploaded: File not found\<close>; when an exception ends the call
  (a round trip raises), it is \<open>Upload failed due to an error.\<close>
\<close>

theorem add_attachments_existing_file_not_uploaded:
  assumes "(fname, url) \<in> set (files_of s (target_of self page_folder))"
    and "path \<in> set files_to_add" and "basename path = fname"
    and "add_attachments self fs files_to_add page_folder False s = (result, s')"
  shows "(\<exists>new. calls s' = calls s @ new
            \<and> UploadFile (target_of self page_folder) fname \<notin> set new)
       \<and> named fname s' (target_of self page_folder) = named fname s (target_of self page_folder)
       \<and> (fname, url) \<in> set (files_of s' (target_of self page_folder))
       \<and> (\<exists>st. result path = Some st \<and> st_result st \<noteq> ''File upload completed''
             \<and> (st = not_found_status
                  \<or> st = exists_status (hd (named fname s (target_of self page_folder)))
                  \<or> st = failed_status))
       \<and> (fst (add_attachments_try self fs files_to_add page_folder False s) \<noteq> None
            \<longrightarrow> result path = Some (if fs path = None then not_found_status
                  else exists_status (hd (named fname s (target_of self page_folder)))))"
proof -
  let ?t = "target_of self page_folder"
  from assms(1) have ex: "named fname s ?t \<noteq> []"
    by (force simp: named_def filter_empty_conv)
  obtain r s1 where tr: "add_attachments_try self fs files_to_add page_folder False s = (r, s1)"
    by (cases "add_attachments_try self fs files_to_add page_folder False s")
  note t = add_attachments_try_existing[OF ex tr]
  from assms(4) tr have s': "s' = s1" by (auto simp: add_attachments_def split: option.splits)
  from t s' have n: "named fname s' ?t = named fname s ?t" by simp
  from assms(1) have "(fname, url) \<in> set (named fname s ?t)" by (simp add: named_def)
  with n have "(fname, url) \<in> set (named fname s' ?t)" by simp
  then have still: "(fname, url) \<in> set (files_of s' ?t)" by (simp add: named_def)
  have nc: "st_result not_found_status \<noteq> ''File upload completed''"
    "st_result failed_status \<noteq> ''File upload completed''"
    "\<And>d. st_result (exists_status d) \<noteq> ''File upload completed''"
    by (simp_all add: not_found_status_def failed_status_def exists_status_def)
  show ?thesis
  proof (cases r)
    case None
    with assms(4) tr assms(2) have "result path = Some failed_status"
      by (auto simp: add_attachments_def)
    with t s' n still nc None tr show ?thesis by simp
  next
    case (Some res)
    with assms(4) tr have "result = res" by (simp add: add_attachments_def)
    with t Some assms(2,3)
    have "result path = Some (if fs path = None then not_found_status
                  else exists_status (hd (named fname s ?t)))" by simp
    with t s' n still nc show ?thesis by auto
  qed
qed

theorem add_attachments_existing_file_not_uploaded_witness:
  "fst (add_attachments demo_importer demo_fs [''export/attachments/Intro/img1.png'']
          (Some ''Intro'') False demo_store) ''export/attachments/Intro/img1.png'' =
      Some \<lparr>st_result = ''Not uploaded: File exists and overwrite is set to false'',
            st_name = Some ''img1.png'', st_url = Some ''/sites/wiki/assets/Intro/img1.png''\<rparr>
   \<and> calls (snd (add_attachments demo_importer demo_fs [''export/attachments/Intro/img1.png'']
          (Some ''Intro'') False demo_store)) =
      [EnsureFolder ''assets/Intro'', FolderFiles ''assets/Intro'',
       FilterFiles ''assets/Intro'' ''img1.png'']
   \<and> (''img1.png'', ''/sites/wiki/assets/Intro/img1.png'') \<in>
       set (files_of (snd (add_attachments demo_importer demo_fs
          [''export/attachments/Intro/img1.png''] (Some ''Intro'') False demo_store))
          ''assets/Intro'')"
proof -
  let ?p = "''export/attachments/Intro/img1.png''"
  let ?run = "add_attachments demo_importer demo_fs [?p] (Some ''Intro'') False demo_store"
  have t: "target_of demo_importer (Some ''Intro'') = ''assets/Intro''"
    by (simp add: target_of_def demo_importer_def)
  have b: "basename ?p = ''img1.png''" by (simp add: basename_def)
  have f: "files_of demo_store ''assets/Intro'' =
      [(''img1.png'', ''/sites/wiki/assets/Intro/img1.png'')]"
    by (simp add: files_of_def demo_store_def)
  have a1: "(''img1.png'', ''/sites/wiki/assets/Intro/img1.png'') \<in>
      set (files_of demo_store (target_of demo_importer (Some ''Intro'')))"
    unfolding t f by simp
  have a4: "?run = (fst ?run, snd ?run)" by simp
  have c: "calls (snd ?run) = [EnsureFolder ''assets/Intro'', FolderFiles ''assets/Intro'',
       FilterFiles ''assets/Intro'' ''img1.png'']"
    and tr: "fst (add_attachments_try demo_importer demo_fs [?p] (Some ''Intro'') False demo_store)
       \<noteq> None"
    by (simp_all add: add_attachments_def add_attachments_try_def t execute_query_def
          ensure_folder_def add_attachment_def b files_of_def demo_store_def demo_fs_def
          exists_status_def Let_def)
  have nm: "named ''img1.png'' demo_store ''assets/Intro'' =
      [(''img1.png'', ''/sites/wiki/assets/Intro/img1.png'')]"
    by (simp add: named_def f)
  have fsp: "demo_fs ?p \<noteq> None" by (simp add: demo_fs_def)
  from add_attachments_existing_file_not_uploaded[OF a1 _ b a4] tr fsp
  have "fst ?run ?p = Some (exists_status (''img1.png'', ''/sites/wiki/assets/Intro/img1.png''))"
    and "(''img1.png'', ''/sites/wiki/assets/Intro/img1.png'') \<in>
       set (files_of (snd ?run) ''assets/Intro'')"
    unfolding t nm by simp_all
  with c show ?thesis by (simp add: exists_status_def)
qed

section \<open>The driver: which failures end the run\<close>

lemmas driver_eval =
  parse_confluence_HTML_def isfile_def demo_world_def demo_disk2_def demo_index_def
  demo_li_def process_page_def find_def find_all_def descendants_def a_match_def tag_at_def
  text_at_def migrate_page_def demo_page_def rstrip_def isspace_def getSiteUser_def strip_def
  attachment_match_def a_href_match_def getSPPageCanvas_def img_match_def add_edit_page_def
  execute_query_def demo_site_def py_split_def Let_def select_def select_one_def meets_def
  class_sel_def type_sel_def id_sel_def type_class_sel_def object_after_def attrs_after_def
  demo_elements_def is_document_def contents_def



lemmas driver_eval2 = driver_eval demo_no_main_def demo_empty_main_def demo_rough_page_def
  demo_site_no_items_def uploadPageAttachment_def path_join_def logLinks_def
  fixAnchors_def fix_anchor_def replace_char_empty_def h3_id_match_def






text \<open>
  Claim C4 fails on the code for a page without a main-content element. Such a page is the
  first of two: \<open>select_one\<close> returns \<open>None\<close>, \<open>main_content.contents\<close> raises, and the
  run ends with \<open>False\<close> and nothing done, the second page included. A first page whose
  main content is there but blank is passed over, as the claim says: the run returns
  \<open>True\<close>, that page keeps its name and the second page is migrated.
\<close>

theorem absent_main_content_ends_run:
  "parse_confluence_HTML demo_importer demo_uuid ''export/'' [] demo_elements
      (demo_world (demo_disk2 demo_no_main) (demo_site [])) =
     (False, demo_world (demo_disk2 demo_no_main) (demo_site []))
   \<and> fst (parse_confluence_HTML demo_importer demo_uuid ''export/'' [] demo_elements
      (demo_world (demo_disk2 demo_empty_main) (demo_site []))) = True
   \<and> w_disk (snd (parse_confluence_HTML demo_importer demo_uuid ''export/'' [] demo_elements
      (demo_world (demo_disk2 demo_empty_main) (demo_site [])))) ''export/one.html'' =
       Some (File demo_empty_main)
   \<and> w_disk (snd (parse_confluence_HTML demo_importer demo_uuid ''export/'' [] demo_elements
      (demo_world (demo_disk2 demo_empty_main) (demo_site [])))) ''export/two.html_complete'' =
       Some (File demo_page)"
  by (simp add: driver_eval2)

text \<open>
  Claim C5 fails on the code when the list query after the first publication returns no
  item: \<open>add_edit_page\<close> returns \<open>None\<close> without attaching the canvas, and for a page
  without links the driver does not look at that result. Both pages are renamed with the
  completion suffix, and no round trip of the run carried a canvas.
\<close>

theorem renamed_without_canvas:
  "fst (parse_confluence_HTML demo_importer demo_uuid ''export/'' [] demo_elements
      (demo_world (demo_disk2 demo_page) demo_site_no_items)) = True
   \<and> calls (w_store (snd (parse_confluence_HTML demo_importer demo_uuid ''export/'' []
      demo_elements (demo_world (demo_disk2 demo_page) demo_site_no_items)))) =
       [PublishNew ''Page One'' [] [], GetItems, PublishNew ''Page Two'' [] [], GetItems]
   \<and> w_disk (snd (parse_confluence_HTML demo_importer demo_uuid ''export/'' [] demo_elements
      (demo_world (demo_disk2 demo_page) demo_site_no_items))) ''export/one.html'' = None
   \<and> w_disk (snd (parse_confluence_HTML demo_importer demo_uuid ''export/'' [] demo_elements
      (demo_world (demo_disk2 demo_page) demo_site_no_items))) ''export/one.html_complete'' =
       Some (File demo_page)
   \<and> fst (add_edit_page ''Page One''
         [RichTextBlock rte_id (Tag ''div'' [(''id'', ''main-content'')]
            [Tag ''p'' [] [NavigableString ''Hello'']]), SettingsBlock]
         None [] demo_site_no_items) = Inr None"
  by (simp add: driver_eval2)

end
